theory Spec2Isabelle
  imports Main "HOL-Library.Word"
begin

section \<open>Bucket and partition bounds\<close>

text \<open>
  The exporter's epoch numbers are Go \<open>uint64\<close> values: they are modelled as \<open>64 word\<close>, so
  that \<open>+\<close>, \<open>-\<close> and \<open>*\<close> wrap around as in Go. An integer division by zero is a run-time
  panic in Go; the pure bounds functions return \<open>None\<close> for it.

  The constants and helpers the two source files use but do not declare are fields of
  \<open>config\<close>:
  \<^item> \<open>EpochsPerDay\<close> is \<open>utils.EpochsPerDay()\<close>,
  \<^item> \<open>EpochOffsetGenesis\<close> is \<open>utils.GetEpochOffsetGenesis()\<close>,
  \<^item> \<open>PartitionEpochWidth\<close> is the package constant of that name,
  \<^item> \<open>HourRetentionDurationEpochs\<close> is the value of \<open>getHourRetentionDurationEpochs()\<close>, which
    the source computes in floating point as \<open>uint64(float64(utils.EpochsPerDay()) * 1.2)\<close>,
  \<^item> \<open>RetentionEpochDuration\<close> is \<open>d.epochWriter.getRetentionEpochDuration()\<close>,
  \<^item> \<open>debugAddToColumnEngine\<close> is the package constant of that name.
\<close>

record config =
  EpochsPerDay :: "64 word"
  EpochOffsetGenesis :: "64 word"
  PartitionEpochWidth :: "64 word"
  HourRetentionDurationEpochs :: "64 word"
  RetentionEpochDuration :: "64 word"
  debugAddToColumnEngine :: bool

definition PartitionDayWidth :: "64 word" where
  "PartitionDayWidth = 6"

definition getHourAggregateWidth :: "config \<Rightarrow> 64 word" where
  "getHourAggregateWidth cfg = EpochsPerDay cfg div 24"

definition GetDayAggregateWidth :: "config \<Rightarrow> 64 word" where
  "GetDayAggregateWidth cfg = EpochsPerDay cfg"

definition getHourAggregateBounds :: "config \<Rightarrow> 64 word \<Rightarrow> (64 word \<times> 64 word) option" where
  "getHourAggregateBounds cfg epoch0 =
     (let offset = EpochOffsetGenesis cfg;
          epoch = epoch0 + offset
      in if getHourAggregateWidth cfg = 0 then None
         else
           let startOfPartition = epoch div getHourAggregateWidth cfg * getHourAggregateWidth cfg;
               endOfPartition = startOfPartition + getHourAggregateWidth cfg;
               startOfPartition = (if startOfPartition < offset then offset else startOfPartition)
           in Some (startOfPartition - offset, endOfPartition - offset))"

definition getDayAggregateBounds :: "config \<Rightarrow> 64 word \<Rightarrow> (64 word \<times> 64 word) option" where
  "getDayAggregateBounds cfg epoch0 =
     (let offset = EpochOffsetGenesis cfg;
          epoch = epoch0 + offset
      in if GetDayAggregateWidth cfg = 0 then None
         else
           let startOfPartition = epoch div GetDayAggregateWidth cfg * GetDayAggregateWidth cfg;
               endOfPartition = startOfPartition + GetDayAggregateWidth cfg;
               startOfPartition = (if startOfPartition < offset then offset else startOfPartition)
           in Some (startOfPartition - offset, endOfPartition - offset))"

text \<open>
  \<open>GetHourPartitionRange\<close>: Go parses \<open>epoch / (P * w) * P * w\<close> as
  \<open>((epoch / (P * w)) * P) * w\<close>.
\<close>

definition GetHourPartitionRange :: "config \<Rightarrow> 64 word \<Rightarrow> (64 word \<times> 64 word) option" where
  "GetHourPartitionRange cfg epoch =
     (if PartitionEpochWidth cfg * getHourAggregateWidth cfg = 0 then None
      else
        let startOfPartition =
              epoch div (PartitionEpochWidth cfg * getHourAggregateWidth cfg)
                * PartitionEpochWidth cfg * getHourAggregateWidth cfg;
            endOfPartition = startOfPartition + PartitionEpochWidth cfg * getHourAggregateWidth cfg
        in Some (startOfPartition, endOfPartition))"

text \<open>
  \<open>GetDayPartitionRange\<close> returns two \<open>time.Time\<close> values, \<open>utils.EpochToTime\<close> of the two
  epochs it computes. \<open>utils.EpochToTime\<close> is not part of the two source files: it is the
  parameter \<open>EpochToTime\<close>, and the type of times is left open.
\<close>

definition GetDayPartitionRange ::
  "(64 word \<Rightarrow> 't) \<Rightarrow> config \<Rightarrow> 64 word \<Rightarrow> ('t \<times> 't) option" where
  "GetDayPartitionRange EpochToTime cfg epoch =
     (if PartitionDayWidth * GetDayAggregateWidth cfg = 0 then None
      else
        let startOfPartition =
              epoch div (PartitionDayWidth * GetDayAggregateWidth cfg)
                * PartitionDayWidth * GetDayAggregateWidth cfg;
            endOfPartition = startOfPartition + PartitionDayWidth * GetDayAggregateWidth cfg
        in Some (EpochToTime startOfPartition, EpochToTime endOfPartition))"

subsection \<open>The properties of a bucket and of a partition, as the specification words them\<close>

text \<open>
  \<open>half_open_bucket w g e s t\<close>: the pair \<open>(s, t)\<close> is the bucket of width \<open>w\<close> for epoch \<open>e\<close>
  under the genesis offset \<open>g\<close>, in the words of the specification: the start is
  \<open>floor((e + g) / w) * w - g\<close>, clamped so that \<open>start + g \<ge> g\<close>; the end is that floor plus
  \<open>w\<close>, minus \<open>g\<close>; \<open>start \<le> e < end\<close>; and \<open>end - start = w\<close> unless the bucket is the first
  one, clamped at genesis, which is shorter.
\<close>

definition half_open_bucket :: "nat \<Rightarrow> nat \<Rightarrow> nat \<Rightarrow> 64 word \<Rightarrow> 64 word \<Rightarrow> bool" where
  "half_open_bucket w g e s t \<longleftrightarrow>
     unat s + g = max ((e + g) div w * w) g \<and>
     unat t + g = (e + g) div w * w + w \<and>
     unat s \<le> e \<and> e < unat t \<and>
     (if g \<le> (e + g) div w * w then unat t - unat s = w else unat t - unat s < w)"

text \<open>
  \<open>aligned_partition W e s t\<close>: \<open>[s, t)\<close> has width exactly \<open>W\<close>, starts at a multiple of \<open>W\<close>
  and holds the epoch \<open>e\<close>.
\<close>

definition aligned_partition :: "nat \<Rightarrow> nat \<Rightarrow> 64 word \<Rightarrow> 64 word \<Rightarrow> bool" where
  "aligned_partition W e s t \<longleftrightarrow>
     unat t = unat s + W \<and> W dvd unat s \<and> unat s \<le> e \<and> e < unat t"

section \<open>Partition identifiers\<close>

text \<open>
  \<open>createHourlyPartition\<close> and \<open>deleteHourlyPartition\<close> build the table name with
  \<open>fmt.Sprintf("validator_dashboard_data_hourly_%d_%d", from, to)\<close>. \<open>formatUint\<close> is
  \<open>%d\<close> on a \<open>uint64\<close>: the decimal digits, most significant first, no leading zero.
\<close>

definition digitChar :: "nat \<Rightarrow> char" where
  "digitChar d = char_of (48 + d)"

function formatUint :: "nat \<Rightarrow> string" where
  "formatUint n = (if n < 10 then [digitChar n] else formatUint (n div 10) @ [digitChar (n mod 10)])"
  by pat_completeness auto
termination
  by (relation "measure id") auto

declare formatUint.simps [simp del]

definition hourlyPartitionPrefix :: string where
  "hourlyPartitionPrefix = ''validator_dashboard_data_hourly_''"

definition hourlyPartitionName :: "64 word \<Rightarrow> 64 word \<Rightarrow> string" where
  "hourlyPartitionName epochStartFrom epochStartTo =
     hourlyPartitionPrefix @ formatUint (unat epochStartFrom) @ ''_'' @
       formatUint (unat epochStartTo)"

text \<open>
  Modelled from the spec: \<open>parseEpochRange\<close> is called by \<open>clearOldHourAggregations\<close> but is
  not in the source files. The specification says that a partition identifier encodes
  \<open>[from, to)\<close> in a fixed textual format parsed via a defined pattern; the pattern is the
  caller's argument \<^verbatim>\<open>validator_dashboard_data_hourly_(\d+)_(\d+)\<close>. The model reads it as Go's
  \<open>regexp\<close> does in \<open>FindStringSubmatch\<close>: the leftmost place of the identifier where the
  literal prefix is followed by a longest run of at least one digit, an underscore and a
  second longest run of at least one digit (after a greedy \<^verbatim>\<open>\d+\<close> the next character is
  no digit, so giving digits back never helps). The two runs are read as decimal \<open>uint64\<close>
  values as \<open>strconv.ParseUint\<close> does, which refuses a value of \<open>2^64\<close> or more. The first
  argument of the model is the literal prefix of the pattern, \<open>hourlyPartitionPrefix\<close>.
\<close>

definition isDigit :: "char \<Rightarrow> bool" where
  "isDigit c \<longleftrightarrow> 48 \<le> (of_char c :: nat) \<and> (of_char c :: nat) \<le> 57"

definition digitValue :: "char \<Rightarrow> nat" where
  "digitValue c = of_char c - 48"

definition decimalValue :: "string \<Rightarrow> nat" where
  "decimalValue ds = foldl (\<lambda>a c. 10 * a + digitValue c) 0 ds"

definition ParseUint :: "string \<Rightarrow> 64 word option" where
  "ParseUint ds =
     (if ds = [] \<or> \<not> list_all isDigit ds \<or> 2 ^ 64 \<le> decimalValue ds then None
      else Some (word_of_nat (decimalValue ds)))"

definition match_at :: "string \<Rightarrow> string \<Rightarrow> (string \<times> string) option" where
  "match_at prefix s =
     (if take (length prefix) s = prefix then
        let r1 = drop (length prefix) s;
            d1 = takeWhile isDigit r1
        in if d1 = [] then None
           else (case dropWhile isDigit r1 of
                   [] \<Rightarrow> None
                 | c # r3 \<Rightarrow>
                     if c = CHR ''_'' \<and> takeWhile isDigit r3 \<noteq> []
                     then Some (d1, takeWhile isDigit r3) else None)
      else None)"

fun FindStringSubmatch :: "string \<Rightarrow> string \<Rightarrow> (string \<times> string) option" where
  "FindStringSubmatch prefix [] = match_at prefix []"
| "FindStringSubmatch prefix (c # cs) =
     (case match_at prefix (c # cs) of
        Some m \<Rightarrow> Some m
      | None \<Rightarrow> FindStringSubmatch prefix cs)"

definition parseEpochRange :: "string \<Rightarrow> string \<Rightarrow> (64 word \<times> 64 word) option" where
  "parseEpochRange prefix partitionName =
     (case FindStringSubmatch prefix partitionName of
        None \<Rightarrow> None
      | Some (m1, m2) \<Rightarrow>
          (case ParseUint m1 of
             None \<Rightarrow> None
           | Some epochFrom \<Rightarrow>
               (case ParseUint m2 of
                  None \<Rightarrow> None
                | Some epochTo \<Rightarrow> Some (epochFrom, epochTo))))"

section \<open>The store and the collaborators\<close>

text \<open>
  The relational store is a collaborator of the two source files. It is modelled by what
  the code can observe of it:
  \<^item> the four logical tables, each a list of rows (\<open>tables\<close>);
  \<^item> the partition tables that exist, as pairs (parent table, partition table name);
  \<^item> the list of the calls made to the collaborators so far (\<open>calls\<close>), in order.

  How the storage engine places rows in partitions is not modelled. The schema of the
  tables is not in the source files either: the 31 columns that the queries add up with
  \<open>SUM\<close> are non-null integers here, \<open>slashed\<close> is a non-null boolean, and the columns that
  the queries read through \<open>MAX\<close>, \<open>COALESCE\<close> or a \<open>LEFT JOIN\<close> are nullable.
\<close>

datatype counter =
    attestations_source_reward | attestations_target_reward | attestations_head_reward
  | attestations_inactivity_reward | attestations_inclusion_reward | attestations_reward
  | attestations_ideal_source_reward | attestations_ideal_target_reward
  | attestations_ideal_head_reward | attestations_ideal_inactivity_reward
  | attestations_ideal_inclusion_reward | attestations_ideal_reward
  | blocks_scheduled | blocks_proposed | blocks_cl_reward
  | sync_scheduled | sync_executed | sync_rewards
  | deposits_count | deposits_amount | withdrawals_count | withdrawals_amount
  | inclusion_delay_sum | block_chance
  | attestations_scheduled | attestations_executed
  | attestation_head_executed | attestation_source_executed | attestation_target_executed
  | optimal_inclusion_delay_sum | slasher_reward

record row_data =
  validator_index :: int
  sums :: "counter \<Rightarrow> int"
  slashed :: bool
  slashed_by :: "int option"
  slashed_violation :: "int option"
  last_executed_duty_epoch :: "int option"
  balance_start :: "int option"
  balance_end :: "int option"

record epoch_row = row_data +
  epoch :: "64 word"

record bucket_row = row_data +
  epoch_start :: "64 word"
  epoch_end :: "64 word option"

record tables =
  validator_dashboard_data_epoch :: "epoch_row list"
  validator_dashboard_data_hourly :: "bucket_row list"
  validator_dashboard_data_daily :: "bucket_row list"
  validator_dashboard_data_rolling_daily :: "bucket_row list"

text \<open>The struct that \<open>edb.GetLastExportedHour\<close> and \<open>edb.GetLastExportedDay\<close> return.\<close>

record bounds =
  EpochStart :: "64 word"
  EpochEnd :: "64 word"

text \<open>
  The argument of \<open>AddToRollingCustom\<close>. The SQL fragments \<open>TailBalancesQuery\<close>,
  \<open>TailBalancesJoinQuery\<close> and \<open>TailBalancesInsertColumnQuery\<close> are the same text in both
  callers (\<open>balance_start\<close> of the source row whose epoch is the third query parameter) and
  are left out of the record; so are the logger and the column names.
\<close>

record custom_rolling =
  StartEpoch :: "64 word"
  EndEpoch :: "64 word"
  StartBoundEpoch :: "64 word"
  TableFrom :: string
  TableTo :: string
  TableDayValue :: string
  TableConflict :: string

datatype call =
    CallGetLastExportedHour
  | CallGetLastExportedDay
  | CallGetDashboardEpochGapsBetween "64 word" "64 word"
  | CallGetPartitionNamesOfTable string
  | CallCreatePartition string string string string
  | CallDropTable string
  | CallAddToColumnEngineAllColumns string
  | CallBeginx
  | CallAddToRollingCustom custom_rolling
  | CallCommit
  | CallGetTailExists "64 word"
  | CallTruncateRollingDaily
  | CallInsertRollingDaily "64 word" "64 word"

record world =
  calls :: "call list"
  partitions :: "(string \<times> string) list"
  committed :: tables

definition called :: "call \<Rightarrow> world \<Rightarrow> world" where
  "called c w = w\<lparr>calls := calls w @ [c]\<rparr>"

datatype 'a sql_result = Row 'a | ErrNoRows | SqlError

text \<open>
  What the collaborators answer during one pass:
  \<^item> \<open>GetLastExportedHour\<close>, \<open>GetLastExportedDay\<close>: the latest bucket of the hourly and of the
    daily table, \<open>sql.ErrNoRows\<close> or another error;
  \<^item> \<open>GetDashboardEpochGapsBetween\<close>: the missing epochs between its two arguments (the
    second one is an \<open>int64\<close>, kept as its 64 bits), or \<open>None\<close> for an error;
  \<^item> \<open>fails\<close>: which calls to the store fail;
  \<^item> \<open>EpochToTime\<close> is \<open>utils.EpochToTime\<close> and \<open>Format t layout\<close> is Go's
    \<open>t.Format(layout)\<close>.
\<close>

record 't env =
  GetLastExportedHour :: "bounds sql_result"
  GetLastExportedDay :: "bounds sql_result"
  GetDashboardEpochGapsBetween :: "64 word \<Rightarrow> 64 word \<Rightarrow> 64 word list option"
  fails :: "call \<Rightarrow> bool"
  EpochToTime :: "64 word \<Rightarrow> 't"
  Format :: "'t \<Rightarrow> string \<Rightarrow> string"

datatype error =
    PanicDivideByZero
  | FailedToGetPartitions
  | FailedToParseEpochRange
  | FailedToDeleteHourlyPartition
  | FailedToGetLatestDashboardHourlyEpoch
  | FailedToGetDashboardEpochGaps
  | GapsInDashboardEpoch "64 word list"
  | FailedToAggregate1h error
  | FailedToStartTransaction
  | FailedToCreateHourlyPartition "64 word" "64 word"
  | FailedToInsertHourlyData
  | FailedToCommitTransaction
  | FailedToUtcDayAggregate error
  | FailedToGetLatestDailyEpoch
  | GapsInDashboardEpochForUtcDayAgg "64 word list"
  | FailedToAggregateUtcDaySpecific error
  | FailedToCreateDayPartition
  | FailedToInsertDailyAggregate
  | CommitError
  | FailedToGetLatestDashboardEpoch
  | FailedToCheckTail "64 word"
  | FailedToDeleteOldRolling24h
  | FailedToInsertRolling24h

text \<open>
  Where \<open>sql.ErrNoRows\<close> is returned the code goes on with the struct it was handed, read
  here as the zero value.
\<close>

definition zeroBounds :: bounds where
  "zeroBounds = \<lparr>EpochStart = 0, EpochEnd = 0\<rparr>"

definition boundsOf :: "bounds sql_result \<Rightarrow> bounds" where
  "boundsOf r = (case r of Row b \<Rightarrow> b | _ \<Rightarrow> zeroBounds)"

section \<open>SQL aggregates\<close>

definition sql_sum :: "('a row_data_scheme) list \<Rightarrow> counter \<Rightarrow> int" where
  "sql_sum rows c = sum_list (map (\<lambda>r. sums r c) rows)"

definition sql_bool_or :: "('a row_data_scheme) list \<Rightarrow> bool" where
  "sql_bool_or rows = list_ex slashed rows"

fun sql_greater :: "int option \<Rightarrow> int option \<Rightarrow> int option" where
  "sql_greater None b = b"
| "sql_greater (Some x) None = Some x"
| "sql_greater (Some x) (Some y) = Some (max x y)"

definition sql_max :: "int option list \<Rightarrow> int option" where
  "sql_max xs = foldr sql_greater xs None"

text \<open>The columns that both the bootstrap query and the merge compute per validator with
  \<open>GROUP BY validator_index\<close>; the two balances are joined in afterwards.\<close>

definition aggregate_group :: "int \<Rightarrow> ('a row_data_scheme) list \<Rightarrow> row_data" where
  "aggregate_group v rows =
     \<lparr>validator_index = v,
      sums = sql_sum rows,
      slashed = sql_bool_or rows,
      slashed_by = sql_max (map slashed_by rows),
      slashed_violation = sql_max (map slashed_violation rows),
      last_executed_duty_epoch = sql_max (map last_executed_duty_epoch rows),
      balance_start = None,
      balance_end = None\<rparr>"

definition group_by_validator :: "('a row_data_scheme) list \<Rightarrow> row_data list" where
  "group_by_validator rows =
     map (\<lambda>v. aggregate_group v (filter (\<lambda>r. validator_index r = v) rows))
       (remdups (map validator_index rows))"

text \<open>\<open>LEFT JOIN t ON a.validator_index = t.validator_index\<close>: every matching row of \<open>t\<close>,
  or one row of nulls.\<close>

definition left_join :: "row_data \<Rightarrow> ('a row_data_scheme) list \<Rightarrow> ('a row_data_scheme) option list" where
  "left_join a t =
     (case filter (\<lambda>b. validator_index b = validator_index a) t of
        [] \<Rightarrow> [None]
      | ms \<Rightarrow> map Some ms)"

section \<open>The conflict-resolving merge write\<close>

text \<open>
  Modelled from the spec: \<open>AddToRollingCustom\<close> is called by \<open>aggregate1hSpecific\<close> and
  \<open>aggregateUtcDaySpecific\<close> but is not in the source files. The specification (section 4.6)
  says: given a source range and a destination bucket, and a pinned tail epoch providing
  \<open>balance_start\<close>, sum all additive fields over the source range grouped by entity id; if a
  destination row for this bucket already exists, add the sums to the existing sums,
  logical-OR the existing \<open>slashed\<close> with the new one, keep the existing \<open>slashed_by\<close>,
  \<open>slashed_violation\<close> and \<open>last_executed_duty_epoch\<close> unless they are null, overwrite
  \<open>balance_end\<close> and \<open>epoch_end\<close>; if no destination row exists, insert a fresh one with
  \<open>balance_start\<close> taken from the tail epoch's starting balance.

  The source range is \<open>StartEpoch \<le> epoch \<le> EndEpoch\<close> (both callers pass \<open>end - 1\<close>, "rolling
  arg is inclusive"); the destination bucket is the row of \<open>TableTo\<close> whose \<open>epoch_start\<close> is
  \<open>StartBoundEpoch\<close> (for the daily table the conflict target is the \<open>day\<close> of that epoch).
  Within the range \<open>slashed\<close> is the logical OR and the three nullable columns are the
  maximum (section 3). Where the specification names no value, the model takes
  \<open>EndEpoch + 1\<close> for \<open>epoch_end\<close> and, for \<open>balance_end\<close>, the "latest observed value": that of
  the validator's row with the greatest epoch in the range.
\<close>

fun latest_row :: "epoch_row list \<Rightarrow> epoch_row option" where
  "latest_row [] = None"
| "latest_row (r # rs) =
     (case latest_row rs of
        None \<Rightarrow> Some r
      | Some l \<Rightarrow> if epoch l < epoch r then Some r else Some l)"

definition in_range :: "custom_rolling \<Rightarrow> epoch_row \<Rightarrow> bool" where
  "in_range p r \<longleftrightarrow> StartEpoch p \<le> epoch r \<and> epoch r \<le> EndEpoch p"

definition merge_aggregate :: "custom_rolling \<Rightarrow> epoch_row list \<Rightarrow> row_data list" where
  "merge_aggregate p src =
     map (\<lambda>a. a\<lparr>balance_end :=
                  (case latest_row (filter (\<lambda>r. validator_index r = validator_index a)
                                      (filter (in_range p) src)) of
                     None \<Rightarrow> None
                   | Some l \<Rightarrow> balance_end l)\<rparr>)
       (group_by_validator (filter (in_range p) src))"

definition same_bucket :: "custom_rolling \<Rightarrow> row_data \<Rightarrow> bucket_row \<Rightarrow> bool" where
  "same_bucket p a d \<longleftrightarrow>
     epoch_start d = StartBoundEpoch p \<and> validator_index d = validator_index a"

definition coalesce :: "'a option \<Rightarrow> 'a option \<Rightarrow> 'a option" where
  "coalesce x y = (case x of None \<Rightarrow> y | Some v \<Rightarrow> Some v)"

definition merge_existing :: "custom_rolling \<Rightarrow> bucket_row \<Rightarrow> row_data \<Rightarrow> bucket_row" where
  "merge_existing p d a =
     d\<lparr>sums := (\<lambda>c. sums d c + sums a c),
       slashed := (slashed d \<or> slashed a),
       slashed_by := coalesce (slashed_by d) (slashed_by a),
       slashed_violation := coalesce (slashed_violation d) (slashed_violation a),
       last_executed_duty_epoch :=
         coalesce (last_executed_duty_epoch d) (last_executed_duty_epoch a),
       balance_end := balance_end a,
       epoch_end := Some (EndEpoch p + 1)\<rparr>"

definition fresh_row :: "custom_rolling \<Rightarrow> epoch_row list \<Rightarrow> row_data \<Rightarrow> bucket_row" where
  "fresh_row p src a =
     \<lparr>validator_index = validator_index a,
      sums = sums a,
      slashed = slashed a,
      slashed_by = slashed_by a,
      slashed_violation = slashed_violation a,
      last_executed_duty_epoch = last_executed_duty_epoch a,
      balance_start =
        (case filter (\<lambda>r. epoch r = StartBoundEpoch p \<and> validator_index r = validator_index a)
                src of
           [] \<Rightarrow> None
         | r # _ \<Rightarrow> balance_start r),
      balance_end = balance_end a,
      epoch_start = StartBoundEpoch p,
      epoch_end = Some (EndEpoch p + 1)\<rparr>"

definition upsert ::
  "custom_rolling \<Rightarrow> epoch_row list \<Rightarrow> bucket_row list \<Rightarrow> row_data \<Rightarrow> bucket_row list" where
  "upsert p src dst a =
     (if list_ex (same_bucket p a) dst
      then map (\<lambda>d. if same_bucket p a d then merge_existing p d a else d) dst
      else dst @ [fresh_row p src a])"

definition merge_write ::
  "custom_rolling \<Rightarrow> epoch_row list \<Rightarrow> bucket_row list \<Rightarrow> bucket_row list" where
  "merge_write p src dst = foldl (upsert p src) dst (merge_aggregate p src)"

definition AddToRollingCustom :: "custom_rolling \<Rightarrow> tables \<Rightarrow> tables option" where
  "AddToRollingCustom p tx =
     (if TableFrom p \<noteq> ''validator_dashboard_data_epoch'' then None
      else if TableTo p = ''validator_dashboard_data_hourly'' then
        Some (tx\<lparr>validator_dashboard_data_hourly :=
                   merge_write p (validator_dashboard_data_epoch tx)
                     (validator_dashboard_data_hourly tx)\<rparr>)
      else if TableTo p = ''validator_dashboard_data_daily'' then
        Some (tx\<lparr>validator_dashboard_data_daily :=
                   merge_write p (validator_dashboard_data_epoch tx)
                     (validator_dashboard_data_daily tx)\<rparr>)
      else None)"

text \<open>
  In the source files the only \<open>ON CONFLICT\<close> clause is part of the statement that follows
  the \<open>return\<close> of \<open>aggregate1hSpecific\<close> and of \<open>aggregateUtcDaySpecific\<close>: it is never
  executed. Its line for the flag is
  \<^verbatim>\<open>slashed = COALESCE(validator_dashboard_data_hourly.slashed, EXCLUDED.slashed)\<close>,
  on nullable booleans:
\<close>

definition legacy_on_conflict_slashed :: "bool option \<Rightarrow> bool option \<Rightarrow> bool option" where
  "legacy_on_conflict_slashed existing excluded = coalesce existing excluded"

section \<open>The hourly partitions and their retention\<close>

text \<open>
  \<open>db.AlloyWriter.Exec\<close> runs a statement on the writer connection itself, outside any
  transaction: its effect is committed as soon as it returns. The first component of the
  result says whether the returned error is not nil.
\<close>

definition createPartition ::
  "'t env \<Rightarrow> string \<Rightarrow> string \<Rightarrow> string \<Rightarrow> string \<Rightarrow> world \<Rightarrow> bool \<times> world" where
  "createPartition env name parent from to w =
     (let w1 = called (CallCreatePartition name parent from to) w
      in if fails env (CallCreatePartition name parent from to) then (True, w1)
         else if name \<in> snd ` set (partitions w1) then (False, w1)
         else (False, w1\<lparr>partitions := partitions w1 @ [(parent, name)]\<rparr>))"

definition createHourlyPartition :: "'t env \<Rightarrow> 64 word \<Rightarrow> 64 word \<Rightarrow> world \<Rightarrow> bool \<times> world" where
  "createHourlyPartition env epochStartFrom epochStartTo w =
     createPartition env (hourlyPartitionName epochStartFrom epochStartTo)
       ''validator_dashboard_data_hourly''
       (formatUint (unat epochStartFrom)) (formatUint (unat epochStartTo)) w"

definition deleteHourlyPartition :: "'t env \<Rightarrow> 64 word \<Rightarrow> 64 word \<Rightarrow> world \<Rightarrow> bool \<times> world" where
  "deleteHourlyPartition env epochStartFrom epochStartTo w =
     (let name = hourlyPartitionName epochStartFrom epochStartTo;
          w1 = called (CallDropTable name) w
      in if fails env (CallDropTable name) then (True, w1)
         else (False, w1\<lparr>partitions := filter (\<lambda>pn. snd pn \<noteq> name) (partitions w1)\<rparr>))"

text \<open>
  Modelled from the spec: \<open>edb.GetPartitionNamesOfTable\<close> is not in the source files; it is
  the collaborator \<open>ListPartitions(tableName)\<close>, the ordered sequence of the partition
  identifiers of a table.
\<close>

definition GetPartitionNamesOfTable :: "string \<Rightarrow> world \<Rightarrow> string list" where
  "GetPartitionNamesOfTable parent w = map snd (filter (\<lambda>pn. fst pn = parent) (partitions w))"

text \<open>The body of the \<open>for\<close> loop of \<open>clearOldHourAggregations\<close>, over the partitions that are
  left to visit. \<open>int64(epochTo) < removeBelowEpoch\<close> compares two signed values.\<close>

fun clearOldHourAggregations_loop ::
  "'t env \<Rightarrow> 64 word \<Rightarrow> string list \<Rightarrow> world \<Rightarrow> error option \<times> world" where
  "clearOldHourAggregations_loop env removeBelowEpoch [] w = (None, w)"
| "clearOldHourAggregations_loop env removeBelowEpoch (p # ps) w =
     (case parseEpochRange hourlyPartitionPrefix p of
        None \<Rightarrow> (Some FailedToParseEpochRange, w)
      | Some (epochFrom, epochTo) \<Rightarrow>
          if sint epochTo < sint removeBelowEpoch then
            (case deleteHourlyPartition env epochFrom epochTo w of
               (True, w') \<Rightarrow> (Some FailedToDeleteHourlyPartition, w')
             | (False, w') \<Rightarrow> clearOldHourAggregations_loop env removeBelowEpoch ps w')
          else clearOldHourAggregations_loop env removeBelowEpoch ps w)"

definition clearOldHourAggregations :: "'t env \<Rightarrow> 64 word \<Rightarrow> world \<Rightarrow> error option \<times> world" where
  "clearOldHourAggregations env removeBelowEpoch w =
     (let w1 = called (CallGetPartitionNamesOfTable ''validator_dashboard_data_hourly'') w
      in if fails env (CallGetPartitionNamesOfTable ''validator_dashboard_data_hourly'')
         then (Some FailedToGetPartitions, w1)
         else clearOldHourAggregations_loop env removeBelowEpoch
                (GetPartitionNamesOfTable ''validator_dashboard_data_hourly'' w1) w1)"

section \<open>Advancing one bucket\<close>

text \<open>
  A transaction \<open>tx\<close> is the view of the tables it will commit: \<open>Beginx\<close> starts it from
  the committed tables, \<open>AddToRollingCustom\<close> writes to it, \<open>Commit\<close> installs it, and the
  deferred \<open>utils.Rollback\<close> drops it on every path that has not committed. The call to
  \<open>edb.AddToColumnEngineAllColumns\<close> changes no table and its error is only logged.
\<close>

definition aggregate1hSpecific ::
  "'t env \<Rightarrow> config \<Rightarrow> 64 word \<Rightarrow> 64 word \<Rightarrow> world \<Rightarrow> error option \<times> world" where
  "aggregate1hSpecific env cfg epochStart epochEnd w =
     (let w1 = called CallBeginx w
      in if fails env CallBeginx then (Some FailedToStartTransaction, w1)
         else
           let tx = committed w1
           in (case GetHourPartitionRange cfg epochStart of
                 None \<Rightarrow> (Some PanicDivideByZero, w1)
               | Some (partitionStartRange, partitionEndRange) \<Rightarrow>
                   (case createHourlyPartition env partitionStartRange partitionEndRange w1 of
                      (True, w2) \<Rightarrow>
                        (Some (FailedToCreateHourlyPartition partitionStartRange partitionEndRange), w2)
                    | (False, w2) \<Rightarrow>
                        (case getHourAggregateBounds cfg epochStart of
                           None \<Rightarrow> (Some PanicDivideByZero, w2)
                         | Some (boundsStart, _) \<Rightarrow>
                             let w3 = (if epochStart = partitionStartRange \<and> debugAddToColumnEngine cfg
                                       then called (CallAddToColumnEngineAllColumns
                                              (hourlyPartitionName partitionStartRange partitionEndRange)) w2
                                       else w2);
                                 p = \<lparr>StartEpoch = epochStart,
                                      EndEpoch = epochEnd - 1,
                                      StartBoundEpoch = boundsStart,
                                      TableFrom = ''validator_dashboard_data_epoch'',
                                      TableTo = ''validator_dashboard_data_hourly'',
                                      TableDayValue = [],
                                      TableConflict = ''(epoch_start, validator_index)''\<rparr>;
                                 w4 = called (CallAddToRollingCustom p) w3
                             in (case (if fails env (CallAddToRollingCustom p) then None
                                       else AddToRollingCustom p tx) of
                                   None \<Rightarrow> (Some FailedToInsertHourlyData, w4)
                                 | Some tx' \<Rightarrow>
                                     let w5 = called CallCommit w4
                                     in if fails env CallCommit
                                        then (Some FailedToCommitTransaction, w5)
                                        else (None, w5\<lparr>committed := tx'\<rparr>))))))"

definition dayToYYMMDDLabel :: "'t env \<Rightarrow> 't \<Rightarrow> string" where
  "dayToYYMMDDLabel env day = Format env day ''20060102''"

definition dayToDDMMYY :: "'t env \<Rightarrow> 't \<Rightarrow> string" where
  "dayToDDMMYY env day = Format env day ''02-January-2006''"

definition createDayPartition :: "'t env \<Rightarrow> 't \<Rightarrow> 't \<Rightarrow> world \<Rightarrow> bool \<times> world" where
  "createDayPartition env dayFrom dayTo w =
     createPartition env
       (''validator_dashboard_data_daily_'' @ dayToYYMMDDLabel env dayFrom @ ''_'' @
          dayToYYMMDDLabel env dayTo)
       ''validator_dashboard_data_daily''
       (dayToDDMMYY env dayFrom) (dayToDDMMYY env dayTo) w"

definition aggregateUtcDaySpecific ::
  "'t env \<Rightarrow> config \<Rightarrow> 64 word \<Rightarrow> 64 word \<Rightarrow> world \<Rightarrow> error option \<times> world" where
  "aggregateUtcDaySpecific env cfg firstEpochOfDay lastEpochOfDay w =
     (case GetDayPartitionRange (EpochToTime env) cfg lastEpochOfDay of
        None \<Rightarrow> (Some PanicDivideByZero, w)
      | Some (partitionStartRange, partitionEndRange) \<Rightarrow>
          (case createDayPartition env partitionStartRange partitionEndRange w of
             (True, w1) \<Rightarrow> (Some FailedToCreateDayPartition, w1)
           | (False, w1) \<Rightarrow>
               (case getDayAggregateBounds cfg firstEpochOfDay of
                  None \<Rightarrow> (Some PanicDivideByZero, w1)
                | Some (boundsStart, _) \<Rightarrow>
                    let w2 = called CallBeginx w1
                    in if fails env CallBeginx then (Some FailedToStartTransaction, w2)
                       else
                         let tx = committed w2;
                             p = \<lparr>StartEpoch = firstEpochOfDay,
                                  EndEpoch = lastEpochOfDay - 1,
                                  StartBoundEpoch = boundsStart,
                                  TableFrom = ''validator_dashboard_data_epoch'',
                                  TableTo = ''validator_dashboard_data_daily'',
                                  TableDayValue =
                                    [CHR 0x27] @ Format env (EpochToTime env boundsStart) ''2006-01-02''
                                      @ [CHR 0x27] @ '' as day,'',
                                  TableConflict = ''(day, validator_index)''\<rparr>;
                             w3 = called (CallAddToRollingCustom p) w2
                         in (case (if fails env (CallAddToRollingCustom p) then None
                                   else AddToRollingCustom p tx) of
                               None \<Rightarrow> (Some FailedToInsertDailyAggregate, w3)
                             | Some tx' \<Rightarrow>
                                 let w4 = called CallCommit w3
                                 in if fails env CallCommit then (Some CommitError, w4)
                                    else (None, w4\<lparr>committed := tx'\<rparr>)))))"

section \<open>The aggregation passes\<close>

text \<open>
  The \<open>for\<close> loops of \<open>aggregate1h\<close> and of \<open>utcDayAggregate\<close> are the same text up to the
  names: \<open>bucketWalk\<close> is that loop, over the bounds function, the bucket width, the function
  that advances one bucket and the wrapping of its error. The loop variable \<open>epoch\<close> (here
  \<open>epochVar\<close>) is a \<open>uint64\<close>
  and \<open>epoch += width\<close> wraps around, so the loop need not end: the result is \<open>None\<close> when it
  does not. (The mutex and the log lines are not modelled.)
\<close>

partial_function (option) bucketWalk ::
  "(64 word \<Rightarrow> (64 word \<times> 64 word) option) \<Rightarrow> 64 word \<Rightarrow>
   (64 word \<Rightarrow> 64 word \<Rightarrow> world \<Rightarrow> error option \<times> world) \<Rightarrow> (error \<Rightarrow> error) \<Rightarrow>
   bounds \<Rightarrow> 64 word \<Rightarrow> 64 word \<Rightarrow> 64 word \<Rightarrow> world \<Rightarrow> (error option \<times> world) option" where
  "bucketWalk getBounds width specific wrap lastExported currentExportedEpoch currentEndBound
       epochVar w =
     (if epochVar \<le> currentEndBound then
        (case getBounds epochVar of
           None \<Rightarrow> Some (Some PanicDivideByZero, w)
         | Some (boundsStart, boundsEnd) \<Rightarrow>
             if EpochEnd lastExported = boundsEnd then
               bucketWalk getBounds width specific wrap lastExported currentExportedEpoch
                 currentEndBound (epochVar + width) w
             else
               let boundsStart = (if epochVar = EpochStart lastExported
                                  then EpochEnd lastExported else boundsStart);
                   boundsEnd = (if boundsStart \<le> currentExportedEpoch + 1 \<and>
                                   currentExportedEpoch + 1 < boundsEnd
                                then currentExportedEpoch + 1 else boundsEnd)
               in (case specific boundsStart boundsEnd w of
                     (Some err, w') \<Rightarrow> Some (Some (wrap err), w')
                   | (None, w') \<Rightarrow>
                       bucketWalk getBounds width specific wrap lastExported
                         currentExportedEpoch currentEndBound (epochVar + width) w'))
      else Some (None, w))"

declare bucketWalk.simps [code]

definition aggregate1h ::
  "'t env \<Rightarrow> config \<Rightarrow> 64 word \<Rightarrow> world \<Rightarrow> (error option \<times> world) option" where
  "aggregate1h env cfg currentExportedEpoch w =
     (let w1 = called CallGetLastExportedHour w
      in if GetLastExportedHour env = SqlError
         then Some (Some FailedToGetLatestDashboardHourlyEpoch, w1)
         else
           let lastHourExported = boundsOf (GetLastExportedHour env);
               differenceToCurrentEpoch = currentExportedEpoch + 1 - EpochEnd lastHourExported
           in if differenceToCurrentEpoch > HourRetentionDurationEpochs cfg then Some (None, w1)
              else
                let w2 = called (CallGetDashboardEpochGapsBetween currentExportedEpoch
                           (currentExportedEpoch + 1 - RetentionEpochDuration cfg)) w1
                in (case GetDashboardEpochGapsBetween env currentExportedEpoch
                          (currentExportedEpoch + 1 - RetentionEpochDuration cfg) of
                      None \<Rightarrow> Some (Some FailedToGetDashboardEpochGaps, w2)
                    | Some gaps \<Rightarrow>
                        if length gaps > 0 then Some (Some (GapsInDashboardEpoch gaps), w2)
                        else
                          (case getHourAggregateBounds cfg currentExportedEpoch of
                             None \<Rightarrow> Some (Some PanicDivideByZero, w2)
                           | Some (_, currentEndBound) \<Rightarrow>
                               bucketWalk (getHourAggregateBounds cfg) (getHourAggregateWidth cfg)
                                 (aggregate1hSpecific env cfg) FailedToAggregate1h
                                 lastHourExported currentExportedEpoch currentEndBound
                                 (EpochStart lastHourExported) w2)))"

definition utcDayAggregate ::
  "'t env \<Rightarrow> config \<Rightarrow> 64 word \<Rightarrow> world \<Rightarrow> (error option \<times> world) option" where
  "utcDayAggregate env cfg currentExportedEpoch w =
     (let w1 = called CallGetLastExportedDay w
      in if GetLastExportedDay env = SqlError then Some (Some FailedToGetLatestDailyEpoch, w1)
         else
           let latestExportedDay = boundsOf (GetLastExportedDay env);
               w2 = called (CallGetDashboardEpochGapsBetween currentExportedEpoch
                      (EpochEnd latestExportedDay)) w1
           in (case GetDashboardEpochGapsBetween env currentExportedEpoch
                     (EpochEnd latestExportedDay) of
                 None \<Rightarrow> Some (Some FailedToGetDashboardEpochGaps, w2)
               | Some gaps \<Rightarrow>
                   if length gaps > 0 then Some (Some (GapsInDashboardEpochForUtcDayAgg gaps), w2)
                   else
                     (case getDayAggregateBounds cfg currentExportedEpoch of
                        None \<Rightarrow> Some (Some PanicDivideByZero, w2)
                      | Some (_, currentEndBound) \<Rightarrow>
                          bucketWalk (getDayAggregateBounds cfg) (GetDayAggregateWidth cfg)
                            (aggregateUtcDaySpecific env cfg) FailedToAggregateUtcDaySpecific
                            latestExportedDay currentExportedEpoch currentEndBound
                            (EpochStart latestExportedDay) w2)))"

definition dayAggregate ::
  "'t env \<Rightarrow> config \<Rightarrow> 64 word \<Rightarrow> world \<Rightarrow> (error option \<times> world) option" where
  "dayAggregate env cfg currentExportedEpoch w =
     (case utcDayAggregate env cfg currentExportedEpoch w of
        None \<Rightarrow> None
      | Some (Some err, w') \<Rightarrow> Some (Some (FailedToUtcDayAggregate err), w')
      | Some (None, w') \<Rightarrow> Some (None, w'))"

section \<open>The bootstrap of the rolling 24h table\<close>

text \<open>\<open>int64(currentStartBounds - utils.EpochsPerDay())\<close> is the wrapped difference read as
  a signed value.\<close>

definition getBootstrapBounds :: "config \<Rightarrow> 64 word \<Rightarrow> (64 word \<times> 64 word) option" where
  "getBootstrapBounds cfg latestExportedHourEpoch =
     (case getHourAggregateBounds cfg latestExportedHourEpoch of
        None \<Rightarrow> None
      | Some (currentStartBounds, _) \<Rightarrow>
          let dayOldEpoch = currentStartBounds - EpochsPerDay cfg;
              dayOldEpoch = (if sint dayOldEpoch < 0 then 0 else dayOldEpoch)
          in (case getHourAggregateBounds cfg dayOldEpoch of
                None \<Rightarrow> None
              | Some (dayOldBoundsStart, _) \<Rightarrow> Some (dayOldBoundsStart, currentStartBounds)))"

definition getBootstrapOnEpochsBehind :: "config \<Rightarrow> 64 word" where
  "getBootstrapOnEpochsBehind cfg = getHourAggregateWidth cfg"

text \<open>
  The \<open>INSERT ... SELECT\<close> of \<open>bootstrap\<close>, with its parameters \<open>$1 = dayOldBoundsStart\<close> and
  \<open>$2 = latestHourlyEpoch\<close>: the rows it inserts, from the hourly table. \<open>epoch_ends\<close> has a
  \<open>LIMIT 1\<close> and no order: the model takes the first row in table order, and the scalar
  subquery on it is null when it has no row.
\<close>

definition bootstrap_rows :: "64 word \<Rightarrow> 64 word \<Rightarrow> bucket_row list \<Rightarrow> bucket_row list" where
  "bootstrap_rows p1 p2 hourly =
     (let epoch_ends = take 1 (map epoch_end (filter (\<lambda>r. epoch_start r = p2) hourly));
          balance_starts = filter (\<lambda>r. epoch_start r = p1) hourly;
          balance_ends = filter (\<lambda>r. epoch_start r = p2) hourly;
          aggregate = group_by_validator
                        (filter (\<lambda>r. p1 \<le> epoch_start r \<and> epoch_start r \<le> p2) hourly)
      in concat (map (\<lambda>a.
           concat (map (\<lambda>bs.
             map (\<lambda>be.
               \<lparr>validator_index = validator_index a,
                sums = sums a,
                slashed = slashed a,
                slashed_by = slashed_by a,
                slashed_violation = slashed_violation a,
                last_executed_duty_epoch = last_executed_duty_epoch a,
                balance_start = (case bs of None \<Rightarrow> None | Some b \<Rightarrow> balance_start b),
                balance_end = (case be of None \<Rightarrow> None | Some b \<Rightarrow> balance_end b),
                epoch_start = p1,
                epoch_end = (case epoch_ends of [] \<Rightarrow> None | e # _ \<Rightarrow> e)\<rparr>)
               (left_join a balance_ends))
             (left_join a balance_starts)))
           aggregate))"

text \<open>
  \<open>bootstrap\<close> works on the transaction \<open>tx\<close> of its caller; the check for the tail row
  goes through \<open>db.AlloyWriter.Get\<close>, outside that transaction. \<open>Get\<close> on a query with no row
  returns \<open>sql.ErrNoRows\<close>; \<open>errors.Wrap\<close> of a nil error is nil, so the branch
  \<open>err == nil && !found\<close> would return no error.
\<close>

definition bootstrap ::
  "'t env \<Rightarrow> config \<Rightarrow> tables \<Rightarrow> world \<Rightarrow> error option \<times> tables \<times> world" where
  "bootstrap env cfg tx w =
     (let w1 = called CallGetLastExportedHour w
      in if GetLastExportedHour env = SqlError
         then (Some FailedToGetLatestDashboardEpoch, tx, w1)
         else
           let latestHourlyEpochBounds = boundsOf (GetLastExportedHour env)
           in (case getBootstrapBounds cfg (EpochStart latestHourlyEpochBounds) of
                 None \<Rightarrow> (Some PanicDivideByZero, tx, w1)
               | Some (dayOldBoundsStart, latestHourlyEpoch) \<Rightarrow>
                   let w2 = called (CallGetTailExists dayOldBoundsStart) w1;
                       found = (if fails env (CallGetTailExists dayOldBoundsStart) then SqlError
                                else if list_ex (\<lambda>r. epoch_start r = dayOldBoundsStart)
                                          (validator_dashboard_data_hourly (committed w2))
                                then Row True else ErrNoRows)
                   in (case found of
                         SqlError \<Rightarrow> (Some (FailedToCheckTail dayOldBoundsStart), tx, w2)
                       | ErrNoRows \<Rightarrow> (Some (FailedToCheckTail dayOldBoundsStart), tx, w2)
                       | Row False \<Rightarrow> (None, tx, w2)
                       | Row True \<Rightarrow>
                           let w3 = called CallTruncateRollingDaily w2
                           in if fails env CallTruncateRollingDaily
                              then (Some FailedToDeleteOldRolling24h, tx, w3)
                              else
                                let tx1 = tx\<lparr>validator_dashboard_data_rolling_daily := []\<rparr>;
                                    w4 = called (CallInsertRollingDaily dayOldBoundsStart
                                           latestHourlyEpoch) w3
                                in if fails env (CallInsertRollingDaily dayOldBoundsStart
                                        latestHourlyEpoch)
                                   then (Some FailedToInsertRolling24h, tx1, w4)
                                   else
                                     (None,
                                      tx1\<lparr>validator_dashboard_data_rolling_daily :=
                                        validator_dashboard_data_rolling_daily tx1 @
                                        bootstrap_rows dayOldBoundsStart latestHourlyEpoch
                                          (validator_dashboard_data_hourly tx1)\<rparr>,
                                      w4))))"

section \<open>Auxiliary notions and concrete inputs\<close>

text \<open>\<open>dropped_by T ps n\<close>: the table name \<open>n\<close> is the one that the retention loop drops
  for some identifier of \<open>ps\<close>, which decodes to a range whose end, read as \<open>int64\<close>, is
  below \<open>T\<close>.\<close>

definition dropped_by :: "64 word \<Rightarrow> string list \<Rightarrow> string \<Rightarrow> bool" where
  "dropped_by T ps n \<longleftrightarrow>
     (\<exists>p\<in>set ps. \<exists>f t. parseEpochRange hourlyPartitionPrefix p = Some (f, t) \<and>
        sint t < sint T \<and> n = hourlyPartitionName f t)"

text \<open>\<open>merge_starts cs\<close>: the \<open>StartEpoch\<close> of the merge writes among the calls \<open>cs\<close>, in
  order. \<open>resumed_at e w w'\<close>: from \<open>w\<close> to \<open>w'\<close> no row of any table has changed, calls have
  only been added, no merge write among them starts before epoch \<open>e\<close>, and the first one,
  if there is one, starts at \<open>e\<close>.\<close>

fun merge_starts :: "call list \<Rightarrow> 64 word list" where
  "merge_starts [] = []"
| "merge_starts (CallAddToRollingCustom p # cs) = StartEpoch p # merge_starts cs"
| "merge_starts (_ # cs) = merge_starts cs"

definition resumed_at :: "64 word \<Rightarrow> world \<Rightarrow> world \<Rightarrow> bool" where
  "resumed_at e w w' \<longleftrightarrow>
     committed w' = committed w \<and>
     (\<exists>new. calls w' = calls w @ new \<and>
        (\<forall>s\<in>set (merge_starts new). e \<le> s) \<and>
        (merge_starts new = [] \<or> hd (merge_starts new) = e))"

text \<open>
  A configuration with the values of the Ethereum main network (225 epochs per day, so an
  hour bucket of 9 epochs; genesis 112 epochs after midnight UTC), a store with no rows and
  two hourly partitions, and collaborators that never fail, report no gap and have no
  bucket yet. Times are seconds; the formatting of a time is left as its layout.
\<close>

definition exampleConfig :: config where
  "exampleConfig =
     \<lparr>EpochsPerDay = 225, EpochOffsetGenesis = 112, PartitionEpochWidth = 3,
      HourRetentionDurationEpochs = 270, RetentionEpochDuration = 292,
      debugAddToColumnEngine = False\<rparr>"

definition emptyTables :: tables where
  "emptyTables =
     \<lparr>validator_dashboard_data_epoch = [], validator_dashboard_data_hourly = [],
      validator_dashboard_data_daily = [], validator_dashboard_data_rolling_daily = []\<rparr>"

definition emptyWorld :: world where
  "emptyWorld = \<lparr>calls = [], partitions = [], committed = emptyTables\<rparr>"

definition twoPartitions :: world where
  "twoPartitions =
     emptyWorld\<lparr>partitions :=
       [(''validator_dashboard_data_hourly'', hourlyPartitionName 0 27),
        (''validator_dashboard_data_hourly'', hourlyPartitionName 27 54)]\<rparr>"

definition exampleEnv :: "int env" where
  "exampleEnv =
     \<lparr>GetLastExportedHour = ErrNoRows, GetLastExportedDay = ErrNoRows,
      GetDashboardEpochGapsBetween = (\<lambda>a b. Some []), fails = (\<lambda>c. False),
      EpochToTime = (\<lambda>e. int (unat e) * 384), Format = (\<lambda>t layout. layout)\<rparr>"

text \<open>Collaborators for which something goes wrong: the last hourly bucket is \<open>[5, 9)\<close> and
  epoch 3 is missing from the epoch table, so that the gap detector reports it for every
  range that holds epoch 3 (its second argument is read as \<open>int64\<close>); the last hourly bucket
  ends far beyond the exported epoch and the gap detector reports a gap wherever it is
  asked; every \<open>Commit\<close> fails.\<close>

definition gapEnv :: "int env" where
  "gapEnv = exampleEnv
     \<lparr>GetLastExportedHour := Row \<lparr>EpochStart = 5, EpochEnd = 9\<rparr>,
      GetDashboardEpochGapsBetween :=
        (\<lambda>a b. if sint b \<le> 3 \<and> 3 \<le> sint a then Some [3] else Some [])\<rparr>"

definition farBehindEnv :: "int env" where
  "farBehindEnv = exampleEnv
     \<lparr>GetLastExportedHour := Row \<lparr>EpochStart = 99, EpochEnd = 108\<rparr>,
      GetLastExportedDay := Row \<lparr>EpochStart = 0, EpochEnd = 9\<rparr>,
      GetDashboardEpochGapsBetween := (\<lambda>a b. Some [3])\<rparr>"

definition commitFails :: "int env" where
  "commitFails = exampleEnv\<lparr>fails := (\<lambda>c. c = CallCommit)\<rparr>"

text \<open>Rows for the examples: every counter of the row has the value \<open>n\<close>, both balances
  are the one given.\<close>

definition epochRow :: "int \<Rightarrow> 64 word \<Rightarrow> int \<Rightarrow> bool \<Rightarrow> int \<Rightarrow> epoch_row" where
  "epochRow v e n sl bal =
     \<lparr>validator_index = v, sums = (\<lambda>c. n), slashed = sl, slashed_by = None,
      slashed_violation = None, last_executed_duty_epoch = None,
      balance_start = Some bal, balance_end = Some bal, epoch = e\<rparr>"

definition bucketRow :: "int \<Rightarrow> 64 word \<Rightarrow> 64 word \<Rightarrow> int \<Rightarrow> bool \<Rightarrow> int \<Rightarrow> bucket_row" where
  "bucketRow v es ee n sl bal =
     \<lparr>validator_index = v, sums = (\<lambda>c. n), slashed = sl, slashed_by = None,
      slashed_violation = None, last_executed_duty_epoch = None,
      balance_start = Some bal, balance_end = Some bal, epoch_start = es, epoch_end = Some ee\<rparr>"

text \<open>The merge of the epochs 9 to 12 into the hour bucket that starts at epoch 5.\<close>

definition exampleRolling :: custom_rolling where
  "exampleRolling =
     \<lparr>StartEpoch = 9, EndEpoch = 12, StartBoundEpoch = 5,
      TableFrom = ''validator_dashboard_data_epoch'',
      TableTo = ''validator_dashboard_data_hourly'', TableDayValue = [],
      TableConflict = ''(epoch_start, validator_index)''\<rparr>"

text \<open>An hourly table for the bootstrap: the last hour bucket starts at epoch 230, so the
  window is \<open>[5, 230]\<close>. Validator 1 has the buckets 0, 5, 14 and 230, validator 2 only the
  bucket 230.\<close>

definition exampleHourly :: "bucket_row list" where
  "exampleHourly =
     [bucketRow 1 0 5 5 False 31, bucketRow 1 5 14 9 False 32, bucketRow 1 14 23 9 False 33,
      bucketRow 1 230 239 4 False 34, bucketRow 2 230 239 7 False 64]"

definition bootstrapEnv :: "int env" where
  "bootstrapEnv = exampleEnv\<lparr>GetLastExportedHour := Row \<lparr>EpochStart = 230, EpochEnd = 239\<rparr>\<rparr>"

definition hourlyWorld :: world where
  "hourlyWorld = emptyWorld\<lparr>committed := emptyTables\<lparr>validator_dashboard_data_hourly := exampleHourly\<rparr>\<rparr>"

text \<open>The state after a pass up to epoch 12: the epoch table has the epochs 9 to 12, the
  last hourly bucket is \<open>[5, 13)\<close> and the last daily bucket \<open>[0, 13)\<close>.\<close>

definition repeatEnv :: "int env" where
  "repeatEnv = exampleEnv
     \<lparr>GetLastExportedHour := Row \<lparr>EpochStart = 5, EpochEnd = 13\<rparr>,
      GetLastExportedDay := Row \<lparr>EpochStart = 0, EpochEnd = 13\<rparr>\<rparr>"

definition repeatWorld :: world where
  "repeatWorld = emptyWorld
     \<lparr>committed := emptyTables
        \<lparr>validator_dashboard_data_epoch :=
           [epochRow 1 9 1 False 32, epochRow 1 10 1 False 32, epochRow 1 11 1 False 32,
            epochRow 1 12 1 False 32],
         validator_dashboard_data_hourly := [bucketRow 1 5 13 8 False 32],
         validator_dashboard_data_daily := [bucketRow 1 0 13 13 False 32]\<rparr>\<rparr>"

section \<open>Lemmas on the bounds\<close>

lemma nat_floor_bucket:
  fixes w :: nat
  assumes "0 < w"
  shows "n div w * w \<le> n" and "n < n div w * w + w"
proof -
  show "n div w * w \<le> n" by simp
  have "n mod w < w" using assms by simp
  moreover have "n = n div w * w + n mod w" by simp
  ultimately show "n < n div w * w + w" by linarith
qed

text \<open>The body shared by \<open>getHourAggregateBounds\<close> and \<open>getDayAggregateBounds\<close>, at a width
  \<open>w\<close> and an offset \<open>g\<close> for which nothing overflows.\<close>

lemma bounds_body_half_open:
  fixes w g e :: "64 word"
  assumes w: "w \<noteq> 0" and fit: "unat e + unat g + unat w < 2 ^ 64"
  defines "s \<equiv> (if (e + g) div w * w < g then g else (e + g) div w * w) - g"
  defines "t \<equiv> (e + g) div w * w + w - g"
  shows "half_open_bucket (unat w) (unat g) (unat e) s t"
proof -
  define q where "q = (unat e + unat g) div unat w * unat w"
  have wpos: "0 < unat w" using w by (simp add: unat_gt_0)
  have q_le: "q \<le> unat e + unat g" and q_gt: "unat e + unat g < q + unat w"
    unfolding q_def using nat_floor_bucket [OF wpos] by blast+
  have uE: "unat (e + g) = unat e + unat g"
    using fit by (simp add: unat_add_lem [THEN iffD1])
  have uq0: "unat ((e + g) div w) * unat w = q"
    by (simp add: unat_div uE q_def)
  have uq: "unat ((e + g) div w * w) = q"
  proof -
    have "unat ((e + g) div w) * unat w < 2 ^ LENGTH(64)"
      unfolding uq0 using q_le fit by simp
    then have "unat ((e + g) div w * w) = unat ((e + g) div w) * unat w"
      by (simp only: unat_mult_lem [THEN iffD1])
    then show ?thesis by (simp only: uq0)
  qed
  have uend: "unat ((e + g) div w * w + w) = q + unat w"
  proof -
    have "unat ((e + g) div w * w) + unat w < 2 ^ LENGTH(64)"
      using q_le fit by (simp add: uq)
    then show ?thesis by (simp only: unat_add_lem [THEN iffD1] uq)
  qed
  define s' where "s' = (if (e + g) div w * w < g then g else (e + g) div w * w)"
  have us': "unat s' = max q (unat g)"
    by (auto simp: s'_def word_less_nat_alt uq max_def)
  have g_le_s': "g \<le> s'" by (simp add: word_le_nat_alt us')
  have g_le_end: "g \<le> (e + g) div w * w + w"
    using q_gt by (simp add: word_le_nat_alt uend)
  have us: "unat s = max q (unat g) - unat g"
    using g_le_s' unfolding s_def s'_def [symmetric] by (simp add: unat_sub us')
  have ut: "unat t = q + unat w - unat g"
    using g_le_end unfolding t_def by (simp add: unat_sub uend)
  show ?thesis
    unfolding half_open_bucket_def us ut q_def [symmetric]
    using q_le q_gt by (auto simp: max_def)
qed

lemma getHourAggregateBounds_half_open:
  assumes "getHourAggregateWidth cfg \<noteq> 0"
    and "unat e + unat (EpochOffsetGenesis cfg) + unat (getHourAggregateWidth cfg) < 2 ^ 64"
  shows "\<exists>s t. getHourAggregateBounds cfg e = Some (s, t) \<and>
           half_open_bucket (unat (getHourAggregateWidth cfg)) (unat (EpochOffsetGenesis cfg))
             (unat e) s t"
  using bounds_body_half_open [OF assms] assms(1)
  by (simp add: getHourAggregateBounds_def Let_def)

lemma getDayAggregateBounds_half_open:
  assumes "GetDayAggregateWidth cfg \<noteq> 0"
    and "unat e + unat (EpochOffsetGenesis cfg) + unat (GetDayAggregateWidth cfg) < 2 ^ 64"
  shows "\<exists>s t. getDayAggregateBounds cfg e = Some (s, t) \<and>
           half_open_bucket (unat (GetDayAggregateWidth cfg)) (unat (EpochOffsetGenesis cfg))
             (unat e) s t"
  using bounds_body_half_open [OF assms] assms(1)
  by (simp add: getDayAggregateBounds_def Let_def)

lemma hour_width_le_day: "unat (getHourAggregateWidth cfg) \<le> unat (EpochsPerDay cfg)"
  by (simp add: getHourAggregateWidth_def unat_div)

lemma nat_bucket_in_partition:
  fixes w P g e :: nat
  assumes w: "0 < w" and P: "0 < P" and dv: "w dvd g"
  defines "q \<equiv> (e + g) div w * w"
  defines "S \<equiv> e div (P * w) * (P * w)"
  shows "g \<le> q" and "S \<le> q - g" and "q + w - g \<le> S + P * w"
proof -
  from dv obtain k where g: "g = w * k" ..
  have q: "q = e div w * w + g"
    using w by (simp add: q_def g add_mult_distrib)
  show "g \<le> q" by (simp add: q)
  have "e div (P * w) = e div w div P"
    by (metis div_mult2_eq mult.commute)
  then have S: "S = (e div w div P * P) * w"
    by (simp add: S_def mult.assoc)
  have "e div w div P * P \<le> e div w" by simp
  then have "S \<le> e div w * w" unfolding S by (rule mult_le_mono1)
  then show "S \<le> q - g" by (simp add: q)
  have "e div w < e div w div P * P + P"
    using nat_floor_bucket(2) [OF P] .
  then have "e div w + 1 \<le> e div w div P * P + P" by simp
  then have "(e div w + 1) * w \<le> (e div w div P * P + P) * w" by (rule mult_le_mono1)
  then show "q + w - g \<le> S + P * w" by (simp add: q S add_mult_distrib)
qed

lemma partition_body_aligned:
  fixes P w e :: "64 word"
  assumes P: "P \<noteq> 0" and w: "w \<noteq> 0"
    and nov: "unat P * unat w < 2 ^ 64"
    and fit: "unat e + unat P * unat w < 2 ^ 64"
  defines "s \<equiv> e div (P * w) * P * w"
  shows "P * w \<noteq> 0"
    and "unat s = unat e div (unat P * unat w) * (unat P * unat w)"
    and "aligned_partition (unat P * unat w) (unat e) s (s + P * w)"
proof -
  define W where "W = unat P * unat w"
  have Wpos: "0 < W" using P w by (simp add: W_def unat_gt_0)
  have uW: "unat (P * w) = W"
    using nov by (simp add: W_def unat_mult_lem [THEN iffD1])
  show nz: "P * w \<noteq> 0" using uW Wpos by (auto simp: unat_eq_0 [symmetric] simp del: unat_eq_0)
  have q_le: "unat e div W * W \<le> unat e" and q_gt: "unat e < unat e div W * W + W"
    using nat_floor_bucket [OF Wpos] by blast+
  have u1: "unat (e div (P * w)) = unat e div W" by (simp add: unat_div uW)
  have wpos: "0 < unat w" using w by (simp add: unat_gt_0)
  have le1: "unat e div W * unat P \<le> unat e div W * W"
    using wpos by (simp add: W_def)
  have u2: "unat (e div (P * w) * P) = unat e div W * unat P"
  proof -
    have "unat e div W * unat P < 2 ^ 64"
      using le1 q_le fit by linarith
    then have "unat (e div (P * w)) * unat P < 2 ^ LENGTH(64)"
      by (simp add: u1)
    then show ?thesis by (simp only: unat_mult_lem [THEN iffD1] u1)
  qed
  have u3: "unat s = unat e div W * W"
  proof -
    have eq: "unat e div W * unat P * unat w = unat e div W * W"
      by (simp add: W_def mult.assoc)
    have "unat e div W * W < 2 ^ 64"
      using q_le fit by linarith
    then have "unat (e div (P * w) * P) * unat w < 2 ^ LENGTH(64)"
      by (simp add: u2 eq)
    then show ?thesis unfolding s_def by (simp only: unat_mult_lem [THEN iffD1] u2 eq)
  qed
  show "unat s = unat e div (unat P * unat w) * (unat P * unat w)"
    using u3 by (simp add: W_def)
  have u4: "unat (s + P * w) = unat s + W"
  proof -
    have "unat e div W * W + W < 2 ^ 64"
      using q_le fit unfolding W_def [symmetric] by linarith
    then have "unat s + unat (P * w) < 2 ^ LENGTH(64)"
      by (simp add: u3 uW)
    then show ?thesis by (simp only: unat_add_lem [THEN iffD1] uW)
  qed
  show "aligned_partition (unat P * unat w) (unat e) s (s + P * w)"
    unfolding aligned_partition_def W_def [symmetric] u4
    using q_le q_gt by (simp add: u3)
qed

lemma bucket_within_partition:
  fixes P w g e s t bs bt :: "64 word"
  assumes P: "P \<noteq> 0" and w: "w \<noteq> 0"
    and us: "unat s = unat e div (unat P * unat w) * (unat P * unat w)"
    and part: "aligned_partition (unat P * unat w) (unat e) s t"
    and dv: "unat w dvd unat g"
    and bucket: "half_open_bucket (unat w) (unat g) (unat e) bs bt"
  shows "s \<le> bs \<and> bt \<le> t"
proof -
  have wpos: "0 < unat w" and Ppos: "0 < unat P" using P w by (simp_all add: unat_gt_0)
  note n = nat_bucket_in_partition [OF wpos Ppos dv, of "unat e"]
  have "unat bs + unat g = (unat e + unat g) div unat w * unat w"
    using bucket n(1) by (simp add: half_open_bucket_def max_def)
  then have bs: "unat bs = (unat e + unat g) div unat w * unat w - unat g"
    by linarith
  have "unat bt + unat g = (unat e + unat g) div unat w * unat w + unat w"
    using bucket by (simp add: half_open_bucket_def)
  then have bt: "unat bt = (unat e + unat g) div unat w * unat w + unat w - unat g"
    by linarith
  have ut: "unat t = unat s + unat P * unat w"
    using part by (simp add: aligned_partition_def)
  show ?thesis
    using n(2,3) by (simp add: word_le_nat_alt bs bt ut us)
qed

lemma GetHourPartitionRange_aligned:
  assumes P: "PartitionEpochWidth cfg \<noteq> 0" and w: "getHourAggregateWidth cfg \<noteq> 0"
    and nov: "unat (PartitionEpochWidth cfg) * unat (getHourAggregateWidth cfg) < 2 ^ 64"
    and fit: "unat e + unat (PartitionEpochWidth cfg) * unat (getHourAggregateWidth cfg) < 2 ^ 64"
  shows "\<exists>s t. GetHourPartitionRange cfg e = Some (s, t) \<and>
           aligned_partition (unat (PartitionEpochWidth cfg) * unat (getHourAggregateWidth cfg))
             (unat e) s t \<and>
           (unat (getHourAggregateWidth cfg) dvd unat (EpochOffsetGenesis cfg) \<and>
            unat e + unat (EpochOffsetGenesis cfg) + unat (getHourAggregateWidth cfg) < 2 ^ 64 \<longrightarrow>
              (\<exists>bs bt. getHourAggregateBounds cfg e = Some (bs, bt) \<and> s \<le> bs \<and> bt \<le> t))"
proof -
  note body = partition_body_aligned [OF P w nov fit]
  have eq: "GetHourPartitionRange cfg e =
      Some (e div (PartitionEpochWidth cfg * getHourAggregateWidth cfg)
              * PartitionEpochWidth cfg * getHourAggregateWidth cfg,
            e div (PartitionEpochWidth cfg * getHourAggregateWidth cfg)
              * PartitionEpochWidth cfg * getHourAggregateWidth cfg
              + PartitionEpochWidth cfg * getHourAggregateWidth cfg)"
    using body(1) by (simp add: GetHourPartitionRange_def Let_def)
  show ?thesis
    unfolding eq
    using body(3) bucket_within_partition [OF P w body(2) body(3)]
      getHourAggregateBounds_half_open [OF w, of e]
    by blast
qed

lemma GetDayPartitionRange_aligned:
  assumes w: "GetDayAggregateWidth cfg \<noteq> 0"
    and nov: "6 * unat (GetDayAggregateWidth cfg) < 2 ^ 64"
    and fit: "unat e + 6 * unat (GetDayAggregateWidth cfg) < 2 ^ 64"
  shows "\<exists>s t. GetDayPartitionRange toTime cfg e = Some (toTime s, toTime t) \<and>
           aligned_partition (6 * unat (GetDayAggregateWidth cfg)) (unat e) s t \<and>
           (unat (GetDayAggregateWidth cfg) dvd unat (EpochOffsetGenesis cfg) \<and>
            unat e + unat (EpochOffsetGenesis cfg) + unat (GetDayAggregateWidth cfg) < 2 ^ 64 \<longrightarrow>
              (\<exists>bs bt. getDayAggregateBounds cfg e = Some (bs, bt) \<and> s \<le> bs \<and> bt \<le> t))"
proof -
  have P: "PartitionDayWidth \<noteq> 0" and uP: "unat PartitionDayWidth = 6"
    by (simp_all add: PartitionDayWidth_def)
  have nov': "unat PartitionDayWidth * unat (GetDayAggregateWidth cfg) < 2 ^ 64"
    and fit': "unat e + unat PartitionDayWidth * unat (GetDayAggregateWidth cfg) < 2 ^ 64"
    using nov fit by (simp_all add: uP)
  note body = partition_body_aligned [OF P w nov' fit']
  have eq: "GetDayPartitionRange toTime cfg e =
      Some (toTime (e div (PartitionDayWidth * GetDayAggregateWidth cfg)
              * PartitionDayWidth * GetDayAggregateWidth cfg),
            toTime (e div (PartitionDayWidth * GetDayAggregateWidth cfg)
              * PartitionDayWidth * GetDayAggregateWidth cfg
              + PartitionDayWidth * GetDayAggregateWidth cfg))"
    using body(1) by (simp add: GetDayPartitionRange_def Let_def)
  show ?thesis
    unfolding eq
    using body(3) bucket_within_partition [OF P w body(2) body(3)]
      getDayAggregateBounds_half_open [OF w, of e]
    unfolding uP
    by blast
qed


section \<open>Lemmas on the partition identifiers and on retention\<close>

lemma isDigit_digitChar: "d < 10 \<Longrightarrow> isDigit (digitChar d)"
  by (simp add: isDigit_def digitChar_def)

lemma digitValue_digitChar: "d < 10 \<Longrightarrow> digitValue (digitChar d) = d"
  by (simp add: digitValue_def digitChar_def)

lemma formatUint_digits: "list_all isDigit (formatUint n)"
proof (induction n rule: formatUint.induct)
  case (1 n)
  show ?case
  proof (cases "n < 10")
    case True
    then show ?thesis by (subst formatUint.simps) (simp add: isDigit_digitChar)
  next
    case False
    then show ?thesis
      using "1" by (subst formatUint.simps) (simp add: isDigit_digitChar)
  qed
qed

lemma formatUint_nonempty: "formatUint n \<noteq> []"
  by (subst formatUint.simps) simp

lemma decimalValue_snoc: "decimalValue (ds @ [c]) = 10 * decimalValue ds + digitValue c"
  by (simp add: decimalValue_def)

lemma decimalValue_formatUint: "decimalValue (formatUint n) = n"
proof (induction n rule: formatUint.induct)
  case (1 n)
  show ?case
  proof (cases "n < 10")
    case True
    then show ?thesis
      by (subst formatUint.simps) (simp add: decimalValue_def digitValue_digitChar)
  next
    case False
    then have "decimalValue (formatUint n) = 10 * (n div 10) + n mod 10"
      using "1" by (subst formatUint.simps) (simp add: decimalValue_snoc digitValue_digitChar)
    then show ?thesis by simp
  qed
qed

lemma ParseUint_formatUint: "ParseUint (formatUint (unat (x :: 64 word))) = Some x"
proof -
  have "unat x < 2 ^ 64" using unsigned_less [of x, where ?'a = nat] by simp
  then show ?thesis
    by (simp add: ParseUint_def formatUint_nonempty formatUint_digits decimalValue_formatUint)
qed

lemma underscore_no_digit: "\<not> isDigit CHR ''_''"
  by (simp add: isDigit_def)

lemma takeWhile_digits_then:
  assumes "list_all isDigit ds" and "\<not> isDigit c"
  shows "takeWhile isDigit (ds @ c # rest) = ds" and "dropWhile isDigit (ds @ c # rest) = c # rest"
  using assms by (induction ds) simp_all

lemma takeWhile_digits_all: "list_all isDigit ds \<Longrightarrow> takeWhile isDigit ds = ds"
  by (induction ds) simp_all

lemma match_at_encoded:
  "match_at prefix (prefix @ formatUint a @ CHR ''_'' # formatUint b) = Some (formatUint a, formatUint b)"
  by (simp add: match_at_def Let_def takeWhile_digits_then [OF formatUint_digits underscore_no_digit]
      takeWhile_digits_all [OF formatUint_digits] formatUint_nonempty)

lemma FindStringSubmatch_encoded:
  "FindStringSubmatch prefix (prefix @ formatUint a @ CHR ''_'' # formatUint b)
     = Some (formatUint a, formatUint b)"
proof (cases "prefix @ formatUint a @ CHR ''_'' # formatUint b")
  case Nil
  then show ?thesis by simp
next
  case (Cons c cs)
  have "FindStringSubmatch prefix (c # cs) = Some (formatUint a, formatUint b)"
    using match_at_encoded [of prefix a b] by (simp add: Cons)
  then show ?thesis by (simp add: Cons)
qed

lemma parseEpochRange_hourlyPartitionName:
  "parseEpochRange hourlyPartitionPrefix (hourlyPartitionName epochFrom epochTo)
     = Some (epochFrom, epochTo)"
  using FindStringSubmatch_encoded [of hourlyPartitionPrefix "unat epochFrom" "unat epochTo"]
  by (simp add: parseEpochRange_def hourlyPartitionName_def ParseUint_formatUint)

lemma hourlyPartitionName_inject:
  assumes "hourlyPartitionName f t = hourlyPartitionName f' t'"
  shows "f = f' \<and> t = t'"
proof -
  have "Some (f, t) = parseEpochRange hourlyPartitionPrefix (hourlyPartitionName f t)"
    by (simp only: parseEpochRange_hourlyPartitionName)
  also have "\<dots> = parseEpochRange hourlyPartitionPrefix (hourlyPartitionName f' t')"
    by (simp only: assms)
  also have "\<dots> = Some (f', t')"
    by (simp only: parseEpochRange_hourlyPartitionName)
  finally show ?thesis by simp
qed

lemma dropped_by_Nil: "\<not> dropped_by T [] n"
  by (simp add: dropped_by_def)

lemma dropped_by_Cons:
  "dropped_by T (p # ps) n \<longleftrightarrow>
     (\<exists>f t. parseEpochRange hourlyPartitionPrefix p = Some (f, t) \<and>
        sint t < sint T \<and> n = hourlyPartitionName f t) \<or> dropped_by T ps n"
  by (auto simp: dropped_by_def)

lemma clearOldHourAggregations_loop_partitions:
  "clearOldHourAggregations_loop env T ps w = (None, w') \<Longrightarrow>
     partitions w' = filter (\<lambda>pn. \<not> dropped_by T ps (snd pn)) (partitions w)"
proof (induction ps arbitrary: w)
  case Nil
  then show ?case by (simp add: dropped_by_Nil)
next
  case (Cons p ps)
  from Cons.prems obtain f t where parse: "parseEpochRange hourlyPartitionPrefix p = Some (f, t)"
    by (auto split: option.splits)
  show ?case
  proof (cases "sint t < sint T")
    case True
    with Cons.prems parse obtain w1 where
      del: "deleteHourlyPartition env f t w = (False, w1)" and
      rest: "clearOldHourAggregations_loop env T ps w1 = (None, w')"
      by (auto split: prod.splits bool.splits)
    from del have p1: "partitions w1 = filter (\<lambda>pn. snd pn \<noteq> hourlyPartitionName f t) (partitions w)"
      by (auto simp: deleteHourlyPartition_def Let_def called_def split: if_splits)
    show ?thesis
      unfolding Cons.IH [OF rest] p1
      using True parse by (auto simp: dropped_by_Cons intro!: filter_cong)
  next
    case False
    with Cons.prems parse have rest: "clearOldHourAggregations_loop env T ps w = (None, w')"
      by simp
    show ?thesis
      unfolding Cons.IH [OF rest]
      using False parse by (auto simp: dropped_by_Cons intro!: filter_cong)
  qed
qed

lemma clearOldHourAggregations_exact:
  assumes ok: "clearOldHourAggregations env removeBelowEpoch w = (None, w')"
    and ex: "(''validator_dashboard_data_hourly'', hourlyPartitionName epochFrom epochTo)
               \<in> set (partitions w)"
  shows "(''validator_dashboard_data_hourly'', hourlyPartitionName epochFrom epochTo)
             \<in> set (partitions w') \<longleftrightarrow> \<not> sint epochTo < sint removeBelowEpoch"
proof -
  let ?H = "''validator_dashboard_data_hourly''"
  let ?w1 = "called (CallGetPartitionNamesOfTable ?H) w"
  let ?ps = "GetPartitionNamesOfTable ?H ?w1"
  from ok have loop: "clearOldHourAggregations_loop env removeBelowEpoch ?ps ?w1 = (None, w')"
    by (simp add: clearOldHourAggregations_def Let_def split: if_splits)
  have pw1: "partitions ?w1 = partitions w" by (simp add: called_def)
  have listed: "hourlyPartitionName epochFrom epochTo \<in> set ?ps"
    using ex by (force simp: GetPartitionNamesOfTable_def pw1)
  have "dropped_by removeBelowEpoch ?ps (hourlyPartitionName epochFrom epochTo)
          \<longleftrightarrow> sint epochTo < sint removeBelowEpoch"
  proof
    assume "dropped_by removeBelowEpoch ?ps (hourlyPartitionName epochFrom epochTo)"
    then obtain f t where "sint t < sint removeBelowEpoch"
      and "hourlyPartitionName epochFrom epochTo = hourlyPartitionName f t"
      unfolding dropped_by_def by blast
    then show "sint epochTo < sint removeBelowEpoch"
      using hourlyPartitionName_inject by blast
  next
    assume "sint epochTo < sint removeBelowEpoch"
    then show "dropped_by removeBelowEpoch ?ps (hourlyPartitionName epochFrom epochTo)"
      unfolding dropped_by_def
      using listed parseEpochRange_hourlyPartitionName [of epochFrom epochTo] by blast
  qed
  then show ?thesis
    using ex by (simp add: clearOldHourAggregations_loop_partitions [OF loop] pw1)
qed


section \<open>Lemmas on the passes\<close>

lemma aggregate1h_skip:
  assumes "GetLastExportedHour env \<noteq> SqlError"
    and "HourRetentionDurationEpochs cfg
           < currentExportedEpoch + 1 - EpochEnd (boundsOf (GetLastExportedHour env))"
  shows "aggregate1h env cfg currentExportedEpoch w = Some (None, called CallGetLastExportedHour w)"
  using assms by (simp add: aggregate1h_def Let_def)

lemma wrapped_difference:
  fixes c E :: "64 word"
  assumes "unat c + 1 < unat E"
  shows "unat (c + 1 - E) = 2 ^ 64 + unat c + 1 - unat E"
proof -
  have "unat E < 2 ^ 64" using unsigned_less [of E, where ?'a = nat] by simp
  then have "unat c + unat (1 :: 64 word) < 2 ^ LENGTH(64)" using assms by simp
  then have c1: "unat (c + 1) = unat c + 1"
    by (simp add: unat_add_lem [THEN iffD1])
  show ?thesis
    using assms by (simp add: unat_sub_if' c1)
qed

lemma aggregate1h_gaps:
  assumes "GetLastExportedHour env \<noteq> SqlError"
    and "\<not> HourRetentionDurationEpochs cfg
           < currentExportedEpoch + 1 - EpochEnd (boundsOf (GetLastExportedHour env))"
    and "GetDashboardEpochGapsBetween env currentExportedEpoch
           (currentExportedEpoch + 1 - RetentionEpochDuration cfg) = Some gaps"
    and "gaps \<noteq> []"
  shows "aggregate1h env cfg currentExportedEpoch w =
           Some (Some (GapsInDashboardEpoch gaps),
                 called (CallGetDashboardEpochGapsBetween currentExportedEpoch
                           (currentExportedEpoch + 1 - RetentionEpochDuration cfg))
                   (called CallGetLastExportedHour w))"
  using assms by (simp add: aggregate1h_def Let_def)

lemma utcDayAggregate_gaps:
  assumes "GetLastExportedDay env \<noteq> SqlError"
    and "GetDashboardEpochGapsBetween env currentExportedEpoch
           (EpochEnd (boundsOf (GetLastExportedDay env))) = Some gaps"
    and "gaps \<noteq> []"
  shows "utcDayAggregate env cfg currentExportedEpoch w =
           Some (Some (GapsInDashboardEpochForUtcDayAgg gaps),
                 called (CallGetDashboardEpochGapsBetween currentExportedEpoch
                           (EpochEnd (boundsOf (GetLastExportedDay env))))
                   (called CallGetLastExportedDay w))"
  using assms by (simp add: utcDayAggregate_def Let_def)

lemma createPartition_result:
  "createPartition env name parent from to w = (failed, w') \<Longrightarrow>
     committed w' = committed w \<and>
     calls w' = calls w @ [CallCreatePartition name parent from to] \<and>
     (failed \<longleftrightarrow> fails env (CallCreatePartition name parent from to)) \<and>
     (\<not> failed \<longrightarrow> name \<in> snd ` set (partitions w')) \<and>
     set (partitions w) \<subseteq> set (partitions w')"
  by (auto simp: createPartition_def Let_def called_def split: if_splits)

lemma aggregate1hSpecific_failure:
  "aggregate1hSpecific env cfg epochStart epochEnd w = (Some err, w') \<Longrightarrow>
     committed w' = committed w"
  by (auto simp: aggregate1hSpecific_def Let_def createHourlyPartition_def called_def
      dest!: createPartition_result split: option.splits prod.splits if_splits bool.splits)

lemma aggregate1hSpecific_success:
  assumes "aggregate1hSpecific env cfg epochStart epochEnd w = (None, w')"
  shows "\<exists>ps pe bs be.
           GetHourPartitionRange cfg epochStart = Some (ps, pe) \<and>
           getHourAggregateBounds cfg epochStart = Some (bs, be) \<and>
           hourlyPartitionName ps pe \<in> snd ` set (partitions w') \<and>
           AddToRollingCustom
             \<lparr>StartEpoch = epochStart, EndEpoch = epochEnd - 1, StartBoundEpoch = bs,
              TableFrom = ''validator_dashboard_data_epoch'',
              TableTo = ''validator_dashboard_data_hourly'',
              TableDayValue = [],
              TableConflict = ''(epoch_start, validator_index)''\<rparr> (committed w)
             = Some (committed w')"
  using assms
  by (auto simp: aggregate1hSpecific_def Let_def createHourlyPartition_def called_def
      dest!: createPartition_result split: option.splits prod.splits if_splits bool.splits)

lemma aggregate1hSpecific_partition_outside_tx:
  assumes "\<not> fails env CallBeginx"
    and "GetHourPartitionRange cfg epochStart = Some (ps, pe)"
    and "\<not> fails env (CallCreatePartition (hourlyPartitionName ps pe)
            ''validator_dashboard_data_hourly'' (formatUint (unat ps)) (formatUint (unat pe)))"
  shows "hourlyPartitionName ps pe
           \<in> snd ` set (partitions (snd (aggregate1hSpecific env cfg epochStart epochEnd w)))"
  using assms
  by (auto simp: aggregate1hSpecific_def Let_def createHourlyPartition_def called_def
      createPartition_def split: option.splits prod.splits if_splits bool.splits)

lemma aggregateUtcDaySpecific_failure:
  "aggregateUtcDaySpecific env cfg firstEpochOfDay lastEpochOfDay w = (Some err, w') \<Longrightarrow>
     committed w' = committed w"
  by (auto simp: aggregateUtcDaySpecific_def Let_def createDayPartition_def called_def
      dest!: createPartition_result split: option.splits prod.splits if_splits bool.splits)

lemma aggregateUtcDaySpecific_success:
  assumes "aggregateUtcDaySpecific env cfg firstEpochOfDay lastEpochOfDay w = (None, w')"
  shows "\<exists>ps pe bs be.
           GetDayPartitionRange (EpochToTime env) cfg lastEpochOfDay = Some (ps, pe) \<and>
           getDayAggregateBounds cfg firstEpochOfDay = Some (bs, be) \<and>
           ''validator_dashboard_data_daily_'' @ dayToYYMMDDLabel env ps @ ''_'' @
              dayToYYMMDDLabel env pe \<in> snd ` set (partitions w') \<and>
           AddToRollingCustom
             \<lparr>StartEpoch = firstEpochOfDay, EndEpoch = lastEpochOfDay - 1, StartBoundEpoch = bs,
              TableFrom = ''validator_dashboard_data_epoch'',
              TableTo = ''validator_dashboard_data_daily'',
              TableDayValue = [CHR 0x27] @ Format env (EpochToTime env bs) ''2006-01-02''
                                @ [CHR 0x27] @ '' as day,'',
              TableConflict = ''(day, validator_index)''\<rparr> (committed w)
             = Some (committed w')"
  using assms
  by (auto simp: aggregateUtcDaySpecific_def Let_def createDayPartition_def called_def
      dest!: createPartition_result split: option.splits prod.splits if_splits bool.splits)

lemma aggregateUtcDaySpecific_partition_outside_tx:
  assumes "GetDayPartitionRange (EpochToTime env) cfg lastEpochOfDay = Some (ps, pe)"
    and "\<not> fails env (CallCreatePartition
            (''validator_dashboard_data_daily_'' @ dayToYYMMDDLabel env ps @ ''_'' @
               dayToYYMMDDLabel env pe)
            ''validator_dashboard_data_daily'' (dayToDDMMYY env ps) (dayToDDMMYY env pe))"
  shows "''validator_dashboard_data_daily_'' @ dayToYYMMDDLabel env ps @ ''_'' @
            dayToYYMMDDLabel env pe
           \<in> snd ` set (partitions
                 (snd (aggregateUtcDaySpecific env cfg firstEpochOfDay lastEpochOfDay w)))"
  using assms
  by (auto simp: aggregateUtcDaySpecific_def Let_def createDayPartition_def called_def
      createPartition_def split: option.splits prod.splits if_splits bool.splits)


section \<open>Lemmas on the merge write\<close>

lemma validator_index_group_by:
  "map validator_index (group_by_validator rows) = remdups (map validator_index rows)"
  by (simp add: group_by_validator_def aggregate_group_def comp_def)

lemma validator_index_merge_aggregate:
  "map validator_index (merge_aggregate p src)
     = remdups (map validator_index (filter (in_range p) src))"
  by (simp add: merge_aggregate_def comp_def validator_index_group_by [symmetric])

lemma distinct_merge_aggregate: "distinct (map validator_index (merge_aggregate p src))"
  by (simp add: validator_index_merge_aggregate)

lemma slashed_merge_aggregate:
  assumes "a \<in> set (merge_aggregate p src)"
  shows "slashed a \<longleftrightarrow>
           (\<exists>r\<in>set src. in_range p r \<and> validator_index r = validator_index a \<and> slashed r)"
  using assms
  by (auto simp: merge_aggregate_def group_by_validator_def aggregate_group_def sql_bool_or_def
      list_ex_iff)

lemma sums_merge_aggregate:
  assumes "a \<in> set (merge_aggregate p src)"
  shows "sums a c = sum_list (map (\<lambda>r. sums r c)
           (filter (\<lambda>r. in_range p r \<and> validator_index r = validator_index a) src))"
  using assms
  by (auto simp: merge_aggregate_def group_by_validator_def aggregate_group_def sql_sum_def
      conj_commute)

lemma upsert_nth:
  assumes "i < length dst"
  shows "upsert p src dst a ! i
           = (if same_bucket p a (dst ! i) then merge_existing p (dst ! i) a else dst ! i)"
    and "i < length (upsert p src dst a)"
proof -
  show "upsert p src dst a ! i
           = (if same_bucket p a (dst ! i) then merge_existing p (dst ! i) a else dst ! i)"
  proof (cases "list_ex (same_bucket p a) dst")
    case True
    then show ?thesis using assms by (simp add: upsert_def)
  next
    case False
    then have "\<not> same_bucket p a (dst ! i)"
      using assms by (auto simp: list_ex_iff)
    then show ?thesis using assms False by (simp add: upsert_def nth_append)
  qed
  show "i < length (upsert p src dst a)"
    using assms by (simp add: upsert_def)
qed

lemma same_bucket_merge_existing [simp]:
  "same_bucket p a' (merge_existing p d a) = same_bucket p a' d"
  by (simp add: same_bucket_def merge_existing_def)

lemma foldl_upsert_nth:
  assumes "i < length dst"
    and "distinct (map validator_index xs)"
  shows "i < length (foldl (upsert p src) dst xs) \<and>
         foldl (upsert p src) dst xs ! i
           = (case find (\<lambda>a. same_bucket p a (dst ! i)) xs of
                None \<Rightarrow> dst ! i
              | Some a \<Rightarrow> merge_existing p (dst ! i) a)"
  using assms
proof (induction xs arbitrary: dst)
  case Nil
  then show ?case by simp
next
  case (Cons x xs)
  let ?dst' = "upsert p src dst x"
  have len: "i < length ?dst'" and row: "?dst' ! i
      = (if same_bucket p x (dst ! i) then merge_existing p (dst ! i) x else dst ! i)"
    using upsert_nth [OF Cons.prems(1)] by simp_all
  have dist: "distinct (map validator_index xs)" using Cons.prems(2) by simp
  note IH = Cons.IH [OF len dist]
  show ?case
  proof (cases "same_bucket p x (dst ! i)")
    case True
    have "\<And>a. a \<in> set xs \<Longrightarrow> \<not> same_bucket p a (dst ! i)"
    proof
      fix a assume "a \<in> set xs" and "same_bucket p a (dst ! i)"
      then have "validator_index a = validator_index x"
        using True by (simp add: same_bucket_def)
      moreover have "validator_index x \<notin> validator_index ` set xs"
        using Cons.prems(2) by simp
      ultimately show False using \<open>a \<in> set xs\<close> by (metis imageI)
    qed
    then have "find (\<lambda>a. same_bucket p a (dst ! i)) xs = None"
      by (simp add: find_None_iff)
    moreover have "?dst' ! i = merge_existing p (dst ! i) x" using row True by simp
    ultimately show ?thesis using IH True by simp
  next
    case False
    then have "?dst' ! i = dst ! i" using row by simp
    then show ?thesis using IH False by (simp split: option.splits)
  qed
qed

lemma merge_write_existing_row:
  assumes i: "i < length dst"
    and a: "a \<in> set (merge_aggregate p src)"
    and same: "same_bucket p a (dst ! i)"
  shows "i < length (merge_write p src dst)"
    and "merge_write p src dst ! i = merge_existing p (dst ! i) a"
proof -
  note f = foldl_upsert_nth [OF i distinct_merge_aggregate, of p src p src]
  show "i < length (merge_write p src dst)" using f by (simp add: merge_write_def)
  have "find (\<lambda>a. same_bucket p a (dst ! i)) (merge_aggregate p src) = Some a"
  proof -
    obtain b where fb: "find (\<lambda>a. same_bucket p a (dst ! i)) (merge_aggregate p src) = Some b"
      using a same by (cases "find (\<lambda>a. same_bucket p a (dst ! i)) (merge_aggregate p src)")
        (auto simp: find_None_iff)
    then have "b \<in> set (merge_aggregate p src)" and "same_bucket p b (dst ! i)"
      by (auto simp: find_Some_iff)
    then have "validator_index b = validator_index a"
      using same by (simp add: same_bucket_def)
    then have "b = a"
      using distinct_merge_aggregate [of p src] a \<open>b \<in> set (merge_aggregate p src)\<close>
      by (meson distinct_map inj_onD)
    with fb show ?thesis by simp
  qed
  then show "merge_write p src dst ! i = merge_existing p (dst ! i) a"
    using f by (simp add: merge_write_def)
qed

text \<open>The unreachable clause keeps an existing \<open>false\<close>: it is not the logical OR that the
  merge write of the specification computes.\<close>

lemma legacy_on_conflict_slashed_keeps_false:
  "legacy_on_conflict_slashed (Some False) (Some True) = Some False"
  by (simp add: legacy_on_conflict_slashed_def coalesce_def)

section \<open>Lemmas on the bootstrap\<close>

lemma group_by_validator_member:
  assumes "a \<in> set (group_by_validator rows)"
  shows "validator_index a \<in> validator_index ` set rows"
    and "a = aggregate_group (validator_index a) (filter (\<lambda>r. validator_index r = validator_index a) rows)"
  using assms by (auto simp: group_by_validator_def aggregate_group_def)

lemma left_join_cases:
  assumes "j \<in> set (left_join a t)"
  shows "(j = None \<and> \<not> (\<exists>b\<in>set t. validator_index b = validator_index a)) \<or>
         (\<exists>b\<in>set t. validator_index b = validator_index a \<and> j = Some b)"
proof (cases "filter (\<lambda>b. validator_index b = validator_index a) t")
  case Nil
  then have "\<not> (\<exists>b\<in>set t. validator_index b = validator_index a)"
    by (auto simp: filter_empty_conv)
  moreover have "j = None" using assms Nil by (simp add: left_join_def)
  ultimately show ?thesis by blast
next
  case (Cons m ms)
  then have "j \<in> Some ` set (filter (\<lambda>b. validator_index b = validator_index a) t)"
    using assms by (simp add: left_join_def)
  then show ?thesis by auto
qed

lemma left_join_nonempty: "left_join a t \<noteq> []"
  by (simp add: left_join_def split: list.splits)

lemma bootstrap_rows_member:
  assumes "r' \<in> set (bootstrap_rows p1 p2 hourly)"
  shows "epoch_start r' = p1"
    and "\<exists>r\<in>set hourly. p1 \<le> epoch_start r \<and> epoch_start r \<le> p2 \<and>
           validator_index r = validator_index r'"
    and "sums r' c = sum_list (map (\<lambda>r. sums r c)
           (filter (\<lambda>r. p1 \<le> epoch_start r \<and> epoch_start r \<le> p2 \<and>
                        validator_index r = validator_index r') hourly))"
    and "(balance_start r' = None \<and>
            \<not> (\<exists>b\<in>set hourly. epoch_start b = p1 \<and> validator_index b = validator_index r')) \<or>
         (\<exists>b\<in>set hourly. epoch_start b = p1 \<and> validator_index b = validator_index r' \<and>
            balance_start r' = balance_start b)"
    and "(balance_end r' = None \<and>
            \<not> (\<exists>b\<in>set hourly. epoch_start b = p2 \<and> validator_index b = validator_index r')) \<or>
         (\<exists>b\<in>set hourly. epoch_start b = p2 \<and> validator_index b = validator_index r' \<and>
            balance_end r' = balance_end b)"
proof -
  define rows where "rows = filter (\<lambda>r. p1 \<le> epoch_start r \<and> epoch_start r \<le> p2) hourly"
  from assms obtain a bs be where
    a: "a \<in> set (group_by_validator rows)" and
    bs: "bs \<in> set (left_join a (filter (\<lambda>r. epoch_start r = p1) hourly))" and
    be: "be \<in> set (left_join a (filter (\<lambda>r. epoch_start r = p2) hourly))" and
    r': "validator_index r' = validator_index a" "sums r' = sums a" "epoch_start r' = p1"
        "balance_start r' = (case bs of None \<Rightarrow> None | Some b \<Rightarrow> balance_start b)"
        "balance_end r' = (case be of None \<Rightarrow> None | Some b \<Rightarrow> balance_end b)"
    unfolding bootstrap_rows_def Let_def rows_def by auto
  show "epoch_start r' = p1" by (fact r'(3))
  have "validator_index a \<in> validator_index ` set rows"
    using group_by_validator_member(1) [OF a] .
  then show "\<exists>r\<in>set hourly. p1 \<le> epoch_start r \<and> epoch_start r \<le> p2 \<and>
           validator_index r = validator_index r'"
    unfolding rows_def r'(1) by auto
  have "sums a c = sum_list (map (\<lambda>r. sums r c) (filter (\<lambda>r. validator_index r = validator_index a) rows))"
    by (subst group_by_validator_member(2) [OF a]) (simp add: aggregate_group_def sql_sum_def)
  then show "sums r' c = sum_list (map (\<lambda>r. sums r c)
           (filter (\<lambda>r. p1 \<le> epoch_start r \<and> epoch_start r \<le> p2 \<and>
                        validator_index r = validator_index r') hourly))"
    unfolding rows_def r'(1) r'(2) by (simp add: conj_commute conj_left_commute)
  show "(balance_start r' = None \<and>
            \<not> (\<exists>b\<in>set hourly. epoch_start b = p1 \<and> validator_index b = validator_index r')) \<or>
         (\<exists>b\<in>set hourly. epoch_start b = p1 \<and> validator_index b = validator_index r' \<and>
            balance_start r' = balance_start b)"
    using left_join_cases [OF bs] unfolding r'(1) r'(4) by auto
  show "(balance_end r' = None \<and>
            \<not> (\<exists>b\<in>set hourly. epoch_start b = p2 \<and> validator_index b = validator_index r')) \<or>
         (\<exists>b\<in>set hourly. epoch_start b = p2 \<and> validator_index b = validator_index r' \<and>
            balance_end r' = balance_end b)"
    using left_join_cases [OF be] unfolding r'(1) r'(5) by auto
qed

lemma bootstrap_rows_cover:
  assumes "r \<in> set hourly" and "p1 \<le> epoch_start r" and "epoch_start r \<le> p2"
  shows "\<exists>r'\<in>set (bootstrap_rows p1 p2 hourly). validator_index r' = validator_index r"
proof -
  define rows where "rows = filter (\<lambda>r. p1 \<le> epoch_start r \<and> epoch_start r \<le> p2) hourly"
  define a where "a = aggregate_group (validator_index r)
      (filter (\<lambda>x. validator_index x = validator_index r) rows)"
  have "validator_index r \<in> set (remdups (map validator_index rows))"
    using assms by (auto simp: rows_def)
  then have "a \<in> (\<lambda>v. aggregate_group v (filter (\<lambda>x. validator_index x = v) rows))
      ` set (remdups (map validator_index rows))"
    unfolding a_def by (rule imageI)
  then have a: "a \<in> set (group_by_validator rows)" "validator_index a = validator_index r"
    by (simp_all add: group_by_validator_def a_def aggregate_group_def)
  obtain bs where bs: "bs \<in> set (left_join a (filter (\<lambda>r. epoch_start r = p1) hourly))"
    using left_join_nonempty [of a "filter (\<lambda>r. epoch_start r = p1) hourly"] by (meson last_in_set)
  obtain be where be: "be \<in> set (left_join a (filter (\<lambda>r. epoch_start r = p2) hourly))"
    using left_join_nonempty [of a "filter (\<lambda>r. epoch_start r = p2) hourly"] by (meson last_in_set)
  show ?thesis
    unfolding bootstrap_rows_def Let_def rows_def [symmetric]
    using a bs be by (auto intro!: bexI [of _ a] bexI [of _ bs] bexI [of _ be])
qed

lemma bootstrap_tail_missing:
  assumes "GetLastExportedHour env \<noteq> SqlError"
    and "getBootstrapBounds cfg (EpochStart (boundsOf (GetLastExportedHour env)))
           = Some (windowTailStart, windowHeadStart)"
    and "\<not> list_ex (\<lambda>r. epoch_start r = windowTailStart)
             (validator_dashboard_data_hourly (committed w))"
  shows "bootstrap env cfg tx w =
           (Some (FailedToCheckTail windowTailStart), tx,
            called (CallGetTailExists windowTailStart) (called CallGetLastExportedHour w))"
  using assms by (simp add: bootstrap_def Let_def called_def)

lemma bootstrap_success:
  assumes "GetLastExportedHour env \<noteq> SqlError"
    and "getBootstrapBounds cfg (EpochStart (boundsOf (GetLastExportedHour env)))
           = Some (windowTailStart, windowHeadStart)"
    and "bootstrap env cfg tx w = (None, tx', w')"
  shows "list_ex (\<lambda>r. epoch_start r = windowTailStart)
           (validator_dashboard_data_hourly (committed w))"
    and "tx' = tx\<lparr>validator_dashboard_data_rolling_daily :=
                 bootstrap_rows windowTailStart windowHeadStart
                   (validator_dashboard_data_hourly tx)\<rparr>"
  using assms by (auto simp: bootstrap_def Let_def called_def split: if_splits)

lemma filter_key_length:
  "distinct (map f xs) \<Longrightarrow> length (filter (\<lambda>x. f x = v) xs) \<le> 1"
proof (induction xs)
  case Nil
  then show ?case by simp
next
  case (Cons x xs)
  show ?case
  proof (cases "f x = v")
    case True
    then have "\<forall>y\<in>set xs. f y \<noteq> v" using Cons.prems by (metis distinct.simps(2) imageI list.simps(9) list.set_map)
    then have "filter (\<lambda>x. f x = v) xs = []" by (simp add: filter_empty_conv)
    then show ?thesis using True by simp
  next
    case False
    then show ?thesis using Cons by simp
  qed
qed

lemma distinct_validators_of_bucket:
  "distinct (map (\<lambda>r. (epoch_start r, validator_index r)) (xs :: bucket_row list)) \<Longrightarrow>
     distinct (map validator_index (filter (\<lambda>r. epoch_start r = p) xs))"
proof (induction xs)
  case Nil
  then show ?case by simp
next
  case (Cons x xs)
  then have IH: "distinct (map validator_index (filter (\<lambda>r. epoch_start r = p) xs))" by simp
  show ?case
  proof (cases "epoch_start x = p")
    case True
    have "validator_index x \<notin> validator_index ` set (filter (\<lambda>r. epoch_start r = p) xs)"
    proof
      assume "validator_index x \<in> validator_index ` set (filter (\<lambda>r. epoch_start r = p) xs)"
      then obtain y where "y \<in> set xs" "epoch_start y = p" "validator_index y = validator_index x"
        by auto
      then have "(epoch_start x, validator_index x) \<in> (\<lambda>r. (epoch_start r, validator_index r)) ` set xs"
        using True by force
      then show False using Cons.prems by simp
    qed
    then show ?thesis using IH True by simp
  next
    case False
    then show ?thesis using IH by simp
  qed
qed

lemma left_join_single:
  assumes "distinct (map validator_index t)"
  shows "\<exists>j. left_join a t = [j]"
proof (cases "filter (\<lambda>b. validator_index b = validator_index a) t")
  case Nil
  then show ?thesis by (simp add: left_join_def)
next
  case (Cons m ms)
  moreover have "length (filter (\<lambda>b. validator_index b = validator_index a) t) \<le> 1"
    using filter_key_length [OF assms] .
  ultimately have "ms = []" by simp
  then show ?thesis using Cons by (simp add: left_join_def)
qed

lemma map_concat_singletons:
  "(\<And>a. a \<in> set xs \<Longrightarrow> \<exists>x. f a = [x] \<and> g x = h a) \<Longrightarrow> map g (concat (map f xs)) = map h xs"
proof (induction xs)
  case Nil
  then show ?case by simp
next
  case (Cons a xs)
  obtain x where "f a = [x]" "g x = h a" using Cons.prems [of a] by auto
  moreover have "map g (concat (map f xs)) = map h xs"
    using Cons.IH Cons.prems by simp
  ultimately show ?case by simp
qed

lemma bootstrap_rows_one_per_validator:
  assumes "distinct (map (\<lambda>r. (epoch_start r, validator_index r)) hourly)"
  shows "map validator_index (bootstrap_rows p1 p2 hourly)
           = remdups (map validator_index
               (filter (\<lambda>r. p1 \<le> epoch_start r \<and> epoch_start r \<le> p2) hourly))"
proof -
  have j1: "\<exists>j. left_join a (filter (\<lambda>r. epoch_start r = p1) hourly) = [j]" for a :: row_data
    using left_join_single [OF distinct_validators_of_bucket [OF assms]] .
  have j2: "\<exists>j. left_join a (filter (\<lambda>r. epoch_start r = p2) hourly) = [j]" for a :: row_data
    using left_join_single [OF distinct_validators_of_bucket [OF assms]] .
  have "map validator_index (bootstrap_rows p1 p2 hourly)
      = map validator_index (group_by_validator
          (filter (\<lambda>r. p1 \<le> epoch_start r \<and> epoch_start r \<le> p2) hourly))"
    unfolding bootstrap_rows_def Let_def
  proof (rule map_concat_singletons)
    fix a :: row_data
    obtain bs be where "left_join a (filter (\<lambda>r. epoch_start r = p1) hourly) = [bs]"
      and "left_join a (filter (\<lambda>r. epoch_start r = p2) hourly) = [be]"
      using j1 [of a] j2 [of a] by blast
    then show "\<exists>x. concat (map (\<lambda>bs. map (\<lambda>be.
               \<lparr>validator_index = validator_index a,
                sums = sums a,
                slashed = slashed a,
                slashed_by = slashed_by a,
                slashed_violation = slashed_violation a,
                last_executed_duty_epoch = last_executed_duty_epoch a,
                balance_start = (case bs of None \<Rightarrow> None | Some b \<Rightarrow> balance_start b),
                balance_end = (case be of None \<Rightarrow> None | Some b \<Rightarrow> balance_end b),
                epoch_start = p1,
                epoch_end = (case take 1 (map epoch_end (filter (\<lambda>r. epoch_start r = p2) hourly)) of
                               [] \<Rightarrow> None | e # _ \<Rightarrow> e)\<rparr>)
               (left_join a (filter (\<lambda>r. epoch_start r = p2) hourly)))
             (left_join a (filter (\<lambda>r. epoch_start r = p1) hourly))) = [x] \<and>
           validator_index x = validator_index a"
      by simp
  qed
  also have "\<dots> = remdups (map validator_index
               (filter (\<lambda>r. p1 \<le> epoch_start r \<and> epoch_start r \<le> p2) hourly))"
    by (simp add: group_by_validator_def aggregate_group_def comp_def)
  finally show ?thesis .
qed


section \<open>Lemmas on a repeated pass\<close>

lemma nat_floor_unique:
  fixes W q x :: nat
  assumes "0 < W" and "W dvd q" and "q \<le> x" and "x < q + W"
  shows "x div W * W = q"
proof -
  from \<open>W dvd q\<close> obtain k where q: "q = W * k" ..
  have "x div W = ((x - q) + k * W) div W"
    using assms(3) by (simp add: q mult.commute)
  also have "\<dots> = k + (x - q) div W"
    using \<open>0 < W\<close> by simp
  also have "(x - q) div W = 0"
    using assms(3,4) by simp
  finally show ?thesis by (simp add: q mult.commute)
qed

lemma half_open_bucket_unique:
  assumes "half_open_bucket W G e s t" and "half_open_bucket W G e s' t'"
  shows "s = s' \<and> t = t'"
proof -
  have "unat s + G = unat s' + G" and "unat t + G = unat t' + G"
    using assms by (simp_all add: half_open_bucket_def)
  then have "unat s = unat s'" and "unat t = unat t'" by simp_all
  then show ?thesis by (simp add: word_unat_eq_iff)
qed

lemma bucket_walk_facts:
  fixes w g c bs be :: "64 word"
  assumes getB: "\<And>e. unat e + unat g + unat w < 2 ^ 64 \<Longrightarrow>
            \<exists>s t. getB e = Some (s, t) \<and> half_open_bucket (unat w) (unat g) (unat e) s t"
    and w: "w \<noteq> 0"
    and fit: "unat c + unat g + 2 * unat w < 2 ^ 64"
    and c: "getB c = Some (bs, be)"
  shows "getB bs = Some (bs, be)"
    and "bs \<le> c" and "c < c + 1" and "c + 1 \<le> be" and "bs < be"
    and "(\<not> bs + w \<le> be) \<or> (bs + w = be \<and> getB be = Some (be, be + w) \<and> be < be + w)"
proof -
  define W G C q where "W = unat w" and "G = unat g" and "C = unat c"
    and "q = (unat c + unat g) div unat w * unat w"
  have Wpos: "0 < W" using w by (simp add: W_def unat_gt_0)
  have fit': "C + G + 2 * W < 2 ^ 64" using fit by (simp add: W_def G_def C_def)
  have q_le: "q \<le> C + G" and q_gt: "C + G < q + W" and q_dvd: "W dvd q"
    using nat_floor_bucket [OF Wpos, of "C + G"] by (simp_all add: q_def W_def G_def C_def)
  obtain s0 t0 where c0: "getB c = Some (s0, t0)"
    and h0: "half_open_bucket (unat w) (unat g) (unat c) s0 t0"
    using getB [of c] fit by auto
  from c c0 have h: "half_open_bucket W G C bs be" using h0 by (simp add: W_def G_def C_def)
  have ubs: "unat bs + G = max q G" and ube: "unat be + G = q + W"
    and bs_le: "unat bs \<le> C" and lt_be: "C < unat be"
    using h by (simp_all add: half_open_bucket_def q_def W_def G_def C_def)
  have uc1: "unat (c + 1) = C + 1"
  proof -
    have "unat c + unat (1 :: 64 word) < 2 ^ LENGTH(64)" using fit' Wpos by (simp add: C_def)
    then show ?thesis by (simp add: unat_add_lem [THEN iffD1] C_def)
  qed
  show "bs \<le> c" using bs_le by (simp add: word_le_nat_alt C_def)
  show "c < c + 1" by (simp add: word_less_nat_alt uc1 C_def)
  show "c + 1 \<le> be" using lt_be by (simp add: word_le_nat_alt uc1)
  show "bs < be" using bs_le lt_be by (simp add: word_less_nat_alt)
  \<comment> \<open>the bucket of its own start\<close>
  have fit_bs: "unat bs + unat g + unat w < 2 ^ 64"
    using bs_le fit' by (simp add: W_def G_def)
  obtain s1 t1 where b1: "getB bs = Some (s1, t1)"
    and h1: "half_open_bucket W G (unat bs) s1 t1"
    using getB [OF fit_bs] by (auto simp: W_def G_def)
  have q1: "(unat bs + G) div W * W = q"
  proof (rule nat_floor_unique [OF Wpos q_dvd])
    show "q \<le> unat bs + G" using ubs by simp
    show "unat bs + G < q + W" using bs_le q_gt by linarith
  qed
  have "half_open_bucket W G (unat bs) bs be"
    unfolding half_open_bucket_def q1 using ubs ube bs_le lt_be by (auto simp: max_def)
  from half_open_bucket_unique [OF h1 this] b1
  show "getB bs = Some (bs, be)" by simp
  \<comment> \<open>the next bucket\<close>
  show "(\<not> bs + w \<le> be) \<or> (bs + w = be \<and> getB be = Some (be, be + w) \<and> be < be + w)"
  proof (cases "G \<le> q")
    case True
    then have ubs': "unat bs = q - G" and ube': "unat be = unat bs + W"
      using ubs ube by (simp_all add: max_def)
    have sum1: "unat (bs + w) = unat bs + W"
    proof -
      have "unat bs + unat w < 2 ^ LENGTH(64)" using bs_le fit' by (simp add: W_def)
      then show ?thesis by (simp add: unat_add_lem [THEN iffD1] W_def)
    qed
    then have eq: "bs + w = be" using ube' by (simp add: word_unat_eq_iff)
    have ube_le: "unat be \<le> C + W" using ube' bs_le by simp
    have sum2: "unat (be + w) = unat be + W"
    proof -
      have "unat be + unat w < 2 ^ LENGTH(64)" using ube_le fit' by (simp add: W_def)
      then show ?thesis by (simp add: unat_add_lem [THEN iffD1] W_def)
    qed
    have fit_be: "unat be + unat g + unat w < 2 ^ 64"
      using ube_le fit' by (simp add: W_def G_def)
    obtain s2 t2 where b2: "getB be = Some (s2, t2)"
      and h2: "half_open_bucket W G (unat be) s2 t2"
      using getB [OF fit_be] by (auto simp: W_def G_def)
    have q2: "(unat be + G) div W * W = q + W"
    proof (rule nat_floor_unique [OF Wpos])
      show "W dvd q + W" using q_dvd by simp
      show "q + W \<le> unat be + G" using ube by simp
      show "unat be + G < q + W + W" using ube Wpos by simp
    qed
    have "half_open_bucket W G (unat be) be (be + w)"
      unfolding half_open_bucket_def q2 sum2 using ube True Wpos by (auto simp: max_def)
    from half_open_bucket_unique [OF h2 this] b2
    have "getB be = Some (be, be + w)" by simp
    moreover have "be < be + w" using Wpos by (simp add: word_less_nat_alt sum2)
    ultimately show ?thesis using eq by simp
  next
    case False
    then have "unat bs = 0" and "unat be < W" using ubs ube by (simp_all add: max_def)
    moreover have "unat (bs + w) = W"
    proof -
      have "unat bs + unat w < 2 ^ LENGTH(64)" using bs_le fit' by (simp add: W_def)
      then show ?thesis using \<open>unat bs = 0\<close> by (simp add: unat_add_lem [THEN iffD1] W_def)
    qed
    ultimately show ?thesis by (simp add: word_le_nat_alt)
  qed
qed

lemma merge_starts_append: "merge_starts (xs @ ys) = merge_starts xs @ merge_starts ys"
  by (induction xs rule: merge_starts.induct) simp_all

lemma merge_write_no_source:
  assumes "\<forall>r\<in>set src. \<not> in_range p r"
  shows "merge_write p src dst = dst"
proof -
  have "filter (in_range p) src = []" using assms by (simp add: filter_empty_conv)
  then show ?thesis
    by (simp add: merge_write_def merge_aggregate_def group_by_validator_def)
qed

lemma AddToRollingCustom_no_source:
  assumes "\<forall>r\<in>set (validator_dashboard_data_epoch tx). \<not> in_range p r"
    and "AddToRollingCustom p tx = Some tx'"
  shows "tx' = tx"
  using assms(2) merge_write_no_source [OF assms(1)]
  by (auto simp: AddToRollingCustom_def split: if_splits)

lemma aggregate1hSpecific_calls:
  assumes "aggregate1hSpecific env cfg epochStart epochEnd w = (r, w')"
  shows "\<exists>new. calls w' = calls w @ new \<and>
           (r = None \<longrightarrow> merge_starts new = [epochStart]) \<and>
           (merge_starts new = [] \<or> merge_starts new = [epochStart])"
  using assms
  by (auto simp: aggregate1hSpecific_def Let_def createHourlyPartition_def createPartition_def
      called_def split: option.splits prod.splits if_splits bool.splits)

lemma aggregateUtcDaySpecific_calls:
  assumes "aggregateUtcDaySpecific env cfg epochStart epochEnd w = (r, w')"
  shows "\<exists>new. calls w' = calls w @ new \<and>
           (r = None \<longrightarrow> merge_starts new = [epochStart]) \<and>
           (merge_starts new = [] \<or> merge_starts new = [epochStart])"
  using assms
  by (auto simp: aggregateUtcDaySpecific_def Let_def createDayPartition_def createPartition_def
      called_def split: option.splits prod.splits if_splits bool.splits)

lemma aggregate1hSpecific_quiet:
  assumes src: "\<forall>r\<in>set (validator_dashboard_data_epoch (committed w)). epoch r < epochStart"
    and run: "aggregate1hSpecific env cfg epochStart epochEnd w = (r, w')"
  shows "committed w' = committed w"
proof (cases r)
  case None
  with run obtain p where "StartEpoch p = epochStart"
    and "AddToRollingCustom p (committed w) = Some (committed w')"
    using aggregate1hSpecific_success [of env cfg epochStart epochEnd w w'] by force
  moreover have "\<forall>r\<in>set (validator_dashboard_data_epoch (committed w)). \<not> in_range p r"
    using src \<open>StartEpoch p = epochStart\<close> by (auto simp: in_range_def)
  ultimately show ?thesis using AddToRollingCustom_no_source by blast
next
  case (Some err)
  with run show ?thesis using aggregate1hSpecific_failure by blast
qed

lemma aggregateUtcDaySpecific_quiet:
  assumes src: "\<forall>r\<in>set (validator_dashboard_data_epoch (committed w)). epoch r < epochStart"
    and run: "aggregateUtcDaySpecific env cfg epochStart epochEnd w = (r, w')"
  shows "committed w' = committed w"
proof (cases r)
  case None
  with run obtain p where "StartEpoch p = epochStart"
    and "AddToRollingCustom p (committed w) = Some (committed w')"
    using aggregateUtcDaySpecific_success [of env cfg epochStart epochEnd w w'] by force
  moreover have "\<forall>r\<in>set (validator_dashboard_data_epoch (committed w)). \<not> in_range p r"
    using src \<open>StartEpoch p = epochStart\<close> by (auto simp: in_range_def)
  ultimately show ?thesis using AddToRollingCustom_no_source by blast
next
  case (Some err)
  with run show ?thesis using aggregateUtcDaySpecific_failure by blast
qed

lemma bucketWalk_repeat:
  fixes c bs be width :: "64 word"
  assumes own: "getB bs = Some (bs, be)"
    and c1: "c < c + 1" and c1_le: "c + 1 \<le> be" and bs_lt: "bs < be"
    and nxt: "(\<not> bs + width \<le> be) \<or>
              (bs + width = be \<and> getB be = Some (be, be + width) \<and> be < be + width)"
    and spec: "\<And>s e v r v'. c < s \<Longrightarrow> committed v = committed w \<Longrightarrow> spec s e v = (r, v') \<Longrightarrow>
         committed v' = committed v \<and>
         (\<exists>new. calls v' = calls v @ new \<and>
            (r = None \<longrightarrow> merge_starts new = [s]) \<and>
            (merge_starts new = [] \<or> merge_starts new = [s]))"
  shows "\<exists>r w'. bucketWalk getB width spec wrap \<lparr>EpochStart = bs, EpochEnd = c + 1\<rparr> c be bs w
                   = Some (r, w') \<and> resumed_at (c + 1) w w'"
proof -
  let ?last = "\<lparr>EpochStart = bs, EpochEnd = c + 1\<rparr>"
  let ?walk = "bucketWalk getB width spec wrap ?last c be"
  have c_lt_be: "c < be" using c1 c1_le by simp
  have bs_le: "bs \<le> be" using bs_lt by simp
  have leave: "?walk e v = Some (None, v)" if "\<not> e \<le> be" for e v
    using that by (subst bucketWalk.simps) simp
  \<comment> \<open>the bucket after the last one, when the walk reaches it\<close>
  have second: "\<exists>r v' new. ?walk be v = Some (r, v') \<and> committed v' = committed w \<and>
      calls v' = calls v @ new \<and> (merge_starts new = [] \<or> merge_starts new = [be])"
    if v: "committed v = committed w" and b: "getB be = Some (be, be + width)"
      and lt: "be < be + width" for v
  proof -
    define e' where "e' = (if be \<le> c + 1 \<and> c + 1 < be + width then c + 1 else be + width)"
    have ne: "c + 1 \<noteq> be + width" using c1_le lt by auto
    have nb: "be \<noteq> bs" using bs_lt by auto
    obtain r v' where run: "spec be e' v = (r, v')" by (cases "spec be e' v")
    from spec [OF c_lt_be v run] obtain new where
      cm: "committed v' = committed v" and cl: "calls v' = calls v @ new"
      and ok: "r = None \<longrightarrow> merge_starts new = [be]"
      and ms: "merge_starts new = [] \<or> merge_starts new = [be]"
      by blast
    have step: "?walk be v = (case spec be e' v of
        (Some err, v') \<Rightarrow> Some (Some (wrap err), v')
      | (None, v') \<Rightarrow> ?walk (be + width) v')"
      using b ne nb by (subst bucketWalk.simps) (simp add: e'_def Let_def)
    show ?thesis
    proof (cases r)
      case None
      have "\<not> be + width \<le> be" using lt by simp
      then have "?walk be v = Some (None, v')"
        using step run None leave by simp
      then show ?thesis using cm v cl ms by auto
    next
      case (Some err)
      then have "?walk be v = Some (Some (wrap err), v')"
        using step run by simp
      then show ?thesis using cm v cl ms by auto
    qed
  qed
  \<comment> \<open>from the bucket after the last one on\<close>
  have rest: "\<exists>r v' new. ?walk (bs + width) v = Some (r, v') \<and> committed v' = committed w \<and>
      calls v' = calls v @ new \<and> (merge_starts new = [] \<or> merge_starts new = [be])"
    if v: "committed v = committed w" for v
  proof (cases "bs + width \<le> be")
    case False
    then have "?walk (bs + width) v = Some (None, v)" by (rule leave)
    then show ?thesis using v by auto
  next
    case True
    with nxt have "bs + width = be" "getB be = Some (be, be + width)" "be < be + width"
      by auto
    then show ?thesis using second [OF v] by simp
  qed
  show ?thesis
  proof (cases "c + 1 = be")
    case True
    have "?walk bs w = ?walk (bs + width) w"
      using own bs_le True by (subst bucketWalk.simps) simp
    moreover obtain r v' new where "?walk (bs + width) w = Some (r, v')"
      and "committed v' = committed w" and "calls v' = calls w @ new"
      and "merge_starts new = [] \<or> merge_starts new = [be]"
      using rest [of w] by auto
    ultimately show ?thesis
      using True by (auto simp: resumed_at_def)
  next
    case False
    then have lt: "c + 1 < be" using c1_le by simp
    obtain r v1 where run: "spec (c + 1) (c + 1) w = (r, v1)" by (cases "spec (c + 1) (c + 1) w")
    from spec [OF c1 _ run] obtain new1 where
      cm1: "committed v1 = committed w" and cl1: "calls v1 = calls w @ new1"
      and ok1: "r = None \<longrightarrow> merge_starts new1 = [c + 1]"
      and ms1: "merge_starts new1 = [] \<or> merge_starts new1 = [c + 1]"
      by auto
    have step: "?walk bs w = (case spec (c + 1) (c + 1) w of
        (Some err, v') \<Rightarrow> Some (Some (wrap err), v')
      | (None, v') \<Rightarrow> ?walk (bs + width) v')"
      using own bs_le False lt by (subst bucketWalk.simps) (simp add: Let_def)
    show ?thesis
    proof (cases r)
      case (Some err)
      then have "?walk bs w = Some (Some (wrap err), v1)" using step run by simp
      then show ?thesis using cm1 cl1 ms1 by (auto simp: resumed_at_def)
    next
      case None
      then have w1: "?walk bs w = ?walk (bs + width) v1" using step run by simp
      obtain r2 v2 new2 where "?walk (bs + width) v1 = Some (r2, v2)"
        and "committed v2 = committed w" and "calls v2 = calls v1 @ new2"
        and "merge_starts new2 = [] \<or> merge_starts new2 = [be]"
        using rest [OF cm1] by auto
      moreover have "merge_starts new1 = [c + 1]" using ok1 None by simp
      ultimately show ?thesis
        using w1 cl1 c1_le by (auto simp: resumed_at_def merge_starts_append)
    qed
  qed
qed

lemma resumed_at_after_reads:
  assumes "resumed_at e (called c2 (called c1 w)) w'"
    and "merge_starts [c1, c2] = []"
  shows "resumed_at e w w'"
proof -
  from assms(1) obtain new where cm: "committed w' = committed w"
    and cl: "calls w' = calls w @ [c1, c2] @ new"
    and a: "\<forall>s\<in>set (merge_starts new). e \<le> s"
    and h: "merge_starts new = [] \<or> hd (merge_starts new) = e"
    by (auto simp: resumed_at_def called_def)
  have "merge_starts ([c1, c2] @ new) = merge_starts new"
    using assms(2) by (simp only: merge_starts_append) simp
  then show ?thesis
    unfolding resumed_at_def using cm cl a h by (intro conjI exI [of _ "[c1, c2] @ new"]) simp_all
qed

lemma resumed_at_reads_only:
  assumes "merge_starts [c1, c2] = []"
  shows "resumed_at e w (called c2 (called c1 w))"
  unfolding resumed_at_def using assms
  by (intro conjI exI [of _ "[c1, c2]"]) (simp_all add: called_def)

lemma aggregate1h_repeat:
  assumes w: "getHourAggregateWidth cfg \<noteq> 0"
    and fit: "unat c + unat (EpochOffsetGenesis cfg) + 2 * unat (getHourAggregateWidth cfg) < 2 ^ 64"
    and b: "getHourAggregateBounds cfg c = Some (bs, be)"
    and last: "GetLastExportedHour env = Row \<lparr>EpochStart = bs, EpochEnd = c + 1\<rparr>"
    and src: "\<forall>r\<in>set (validator_dashboard_data_epoch (committed w)). epoch r \<le> c"
  shows "\<exists>r w'. aggregate1h env cfg c w = Some (r, w') \<and> resumed_at (c + 1) w w'"
proof -
  let ?g = "CallGetDashboardEpochGapsBetween c (c + 1 - RetentionEpochDuration cfg)"
  let ?w2 = "called ?g (called CallGetLastExportedHour w)"
  have ms: "merge_starts [CallGetLastExportedHour, ?g] = []" by simp
  note facts = bucket_walk_facts [where getB = "getHourAggregateBounds cfg"
      and w = "getHourAggregateWidth cfg" and g = "EpochOffsetGenesis cfg",
      OF getHourAggregateBounds_half_open [OF w] w fit b]
  have cm2: "committed ?w2 = committed w" by (simp add: called_def)
  have spec: "committed v' = committed v \<and>
         (\<exists>new. calls v' = calls v @ new \<and>
            (r = None \<longrightarrow> merge_starts new = [s]) \<and>
            (merge_starts new = [] \<or> merge_starts new = [s]))"
    if "c < s" and "committed v = committed ?w2" and "aggregate1hSpecific env cfg s e v = (r, v')"
    for s e v r v'
  proof -
    have "\<forall>r\<in>set (validator_dashboard_data_epoch (committed v)). epoch r < s"
      using src that(1,2) cm2 by auto
    then show ?thesis
      using aggregate1hSpecific_quiet [OF _ that(3)] aggregate1hSpecific_calls [OF that(3)]
      by blast
  qed
  have walk: "\<exists>r w'. bucketWalk (getHourAggregateBounds cfg) (getHourAggregateWidth cfg)
        (aggregate1hSpecific env cfg) FailedToAggregate1h \<lparr>EpochStart = bs, EpochEnd = c + 1\<rparr>
        c be bs ?w2 = Some (r, w') \<and> resumed_at (c + 1) ?w2 w'"
    by (rule bucketWalk_repeat [OF facts(1,3,4,5,6) spec])
  have skip: "\<not> HourRetentionDurationEpochs cfg < c + 1 - (c + 1)" by simp
  show ?thesis
  proof (cases "GetDashboardEpochGapsBetween env c (c + 1 - RetentionEpochDuration cfg)")
    case None
    then have "aggregate1h env cfg c w = Some (Some FailedToGetDashboardEpochGaps, ?w2)"
      using last by (simp add: aggregate1h_def Let_def boundsOf_def)
    then show ?thesis using resumed_at_reads_only [OF ms] by auto
  next
    case (Some gaps)
    show ?thesis
    proof (cases "gaps = []")
      case False
      then have "aggregate1h env cfg c w = Some (Some (GapsInDashboardEpoch gaps), ?w2)"
        using last Some by (simp add: aggregate1h_def Let_def boundsOf_def)
      then show ?thesis using resumed_at_reads_only [OF ms] by auto
    next
      case True
      then have "aggregate1h env cfg c w =
          bucketWalk (getHourAggregateBounds cfg) (getHourAggregateWidth cfg)
            (aggregate1hSpecific env cfg) FailedToAggregate1h \<lparr>EpochStart = bs, EpochEnd = c + 1\<rparr>
            c be bs ?w2"
        using last Some b by (simp add: aggregate1h_def Let_def boundsOf_def)
      then show ?thesis using walk resumed_at_after_reads [OF _ ms] by auto
    qed
  qed
qed

lemma utcDayAggregate_repeat:
  assumes w: "GetDayAggregateWidth cfg \<noteq> 0"
    and fit: "unat c + unat (EpochOffsetGenesis cfg) + 2 * unat (GetDayAggregateWidth cfg) < 2 ^ 64"
    and b: "getDayAggregateBounds cfg c = Some (bs, be)"
    and last: "GetLastExportedDay env = Row \<lparr>EpochStart = bs, EpochEnd = c + 1\<rparr>"
    and src: "\<forall>r\<in>set (validator_dashboard_data_epoch (committed w)). epoch r \<le> c"
  shows "\<exists>r w'. utcDayAggregate env cfg c w = Some (r, w') \<and> resumed_at (c + 1) w w'"
proof -
  let ?g = "CallGetDashboardEpochGapsBetween c (c + 1)"
  let ?w2 = "called ?g (called CallGetLastExportedDay w)"
  have ms: "merge_starts [CallGetLastExportedDay, ?g] = []" by simp
  note facts = bucket_walk_facts [where getB = "getDayAggregateBounds cfg"
      and w = "GetDayAggregateWidth cfg" and g = "EpochOffsetGenesis cfg",
      OF getDayAggregateBounds_half_open [OF w] w fit b]
  have cm2: "committed ?w2 = committed w" by (simp add: called_def)
  have spec: "committed v' = committed v \<and>
         (\<exists>new. calls v' = calls v @ new \<and>
            (r = None \<longrightarrow> merge_starts new = [s]) \<and>
            (merge_starts new = [] \<or> merge_starts new = [s]))"
    if "c < s" and "committed v = committed ?w2" and "aggregateUtcDaySpecific env cfg s e v = (r, v')"
    for s e v r v'
  proof -
    have "\<forall>r\<in>set (validator_dashboard_data_epoch (committed v)). epoch r < s"
      using src that(1,2) cm2 by auto
    then show ?thesis
      using aggregateUtcDaySpecific_quiet [OF _ that(3)] aggregateUtcDaySpecific_calls [OF that(3)]
      by blast
  qed
  have walk: "\<exists>r w'. bucketWalk (getDayAggregateBounds cfg) (GetDayAggregateWidth cfg)
        (aggregateUtcDaySpecific env cfg) FailedToAggregateUtcDaySpecific
        \<lparr>EpochStart = bs, EpochEnd = c + 1\<rparr> c be bs ?w2 = Some (r, w') \<and>
        resumed_at (c + 1) ?w2 w'"
    by (rule bucketWalk_repeat [OF facts(1,3,4,5,6) spec])
  show ?thesis
  proof (cases "GetDashboardEpochGapsBetween env c (c + 1)")
    case None
    then have "utcDayAggregate env cfg c w = Some (Some FailedToGetDashboardEpochGaps, ?w2)"
      using last by (simp add: utcDayAggregate_def Let_def boundsOf_def)
    then show ?thesis using resumed_at_reads_only [OF ms] by auto
  next
    case (Some gaps)
    show ?thesis
    proof (cases "gaps = []")
      case False
      then have "utcDayAggregate env cfg c w
          = Some (Some (GapsInDashboardEpochForUtcDayAgg gaps), ?w2)"
        using last Some by (simp add: utcDayAggregate_def Let_def boundsOf_def)
      then show ?thesis using resumed_at_reads_only [OF ms] by auto
    next
      case True
      then have "utcDayAggregate env cfg c w =
          bucketWalk (getDayAggregateBounds cfg) (GetDayAggregateWidth cfg)
            (aggregateUtcDaySpecific env cfg) FailedToAggregateUtcDaySpecific
            \<lparr>EpochStart = bs, EpochEnd = c + 1\<rparr> c be bs ?w2"
        using last Some b by (simp add: utcDayAggregate_def Let_def boundsOf_def)
      then show ?thesis using walk resumed_at_after_reads [OF _ ms] by auto
    qed
  qed
qed

section \<open>The claims\<close>

text \<open>
  Claim C5 (bucket-bounds correctness and half-open tiling), as the code has it: whenever
  the bucket width is not zero and \<open>e + g + EpochsPerDay\<close> stays below \<open>2^64\<close>,
  \<open>getHourAggregateBounds\<close> and \<open>getDayAggregateBounds\<close> return a pair \<open>(start, end)\<close> with
  \<open>start = floor((e + g) / w) * w - g\<close> clamped at genesis, \<open>start \<le> e < end\<close>, and
  \<open>end - start = w\<close> except for the first bucket, clamped at genesis. (Both are HOL
  functions of the configuration and the epoch: pure and deterministic.)
\<close>

theorem aggregate_bounds_half_open_tiling:
  assumes "unat e + unat (EpochOffsetGenesis cfg) + unat (EpochsPerDay cfg) < 2 ^ 64"
  shows "(getHourAggregateWidth cfg \<noteq> 0 \<longrightarrow>
            (\<exists>s t. getHourAggregateBounds cfg e = Some (s, t) \<and>
               half_open_bucket (unat (getHourAggregateWidth cfg))
                 (unat (EpochOffsetGenesis cfg)) (unat e) s t)) \<and>
         (GetDayAggregateWidth cfg \<noteq> 0 \<longrightarrow>
            (\<exists>s t. getDayAggregateBounds cfg e = Some (s, t) \<and>
               half_open_bucket (unat (GetDayAggregateWidth cfg))
                 (unat (EpochOffsetGenesis cfg)) (unat e) s t))"
proof (intro conjI impI)
  assume "getHourAggregateWidth cfg \<noteq> 0"
  moreover have "unat e + unat (EpochOffsetGenesis cfg) + unat (getHourAggregateWidth cfg) < 2 ^ 64"
    using assms hour_width_le_day [of cfg] by linarith
  ultimately show "\<exists>s t. getHourAggregateBounds cfg e = Some (s, t) \<and>
      half_open_bucket (unat (getHourAggregateWidth cfg)) (unat (EpochOffsetGenesis cfg)) (unat e) s t"
    by (rule getHourAggregateBounds_half_open)
next
  assume "GetDayAggregateWidth cfg \<noteq> 0"
  moreover have "unat e + unat (EpochOffsetGenesis cfg) + unat (GetDayAggregateWidth cfg) < 2 ^ 64"
    using assms by (simp add: GetDayAggregateWidth_def)
  ultimately show "\<exists>s t. getDayAggregateBounds cfg e = Some (s, t) \<and>
      half_open_bucket (unat (GetDayAggregateWidth cfg)) (unat (EpochOffsetGenesis cfg)) (unat e) s t"
    by (rule getDayAggregateBounds_half_open)
qed

theorem aggregate_bounds_half_open_tiling_witness:
  "\<exists>s t. getHourAggregateBounds
       \<lparr>EpochsPerDay = 225, EpochOffsetGenesis = 112, PartitionEpochWidth = 3,
        HourRetentionDurationEpochs = 270, RetentionEpochDuration = 10,
        debugAddToColumnEngine = False\<rparr> 26 = Some (s, t) \<and>
     half_open_bucket 9 112 26 s t"
  using aggregate_bounds_half_open_tiling
    [of 26 "\<lparr>EpochsPerDay = 225, EpochOffsetGenesis = 112, PartitionEpochWidth = 3,
        HourRetentionDurationEpochs = 270, RetentionEpochDuration = 10,
        debugAddToColumnEngine = False\<rparr>"]
  by (simp add: getHourAggregateWidth_def)

text \<open>
  The claim as worded quantifies over every epoch, width and offset. With a width of zero
  (here \<open>EpochsPerDay = 23\<close>, so that the hour width \<open>23 / 24\<close> is \<open>0\<close>) the division panics
  and nothing is returned; and at the top of the \<open>uint64\<close> range the end of the bucket wraps
  around to \<open>0\<close>, so that \<open>e < end\<close> fails.
\<close>

theorem aggregate_bounds_counterexample:
  "getHourAggregateBounds
     \<lparr>EpochsPerDay = 23, EpochOffsetGenesis = 0, PartitionEpochWidth = 3,
      HourRetentionDurationEpochs = 27, RetentionEpochDuration = 10,
        debugAddToColumnEngine = False\<rparr> 0 = None \<and>
   getDayAggregateBounds
     \<lparr>EpochsPerDay = 4, EpochOffsetGenesis = 0, PartitionEpochWidth = 3,
      HourRetentionDurationEpochs = 4, RetentionEpochDuration = 10,
        debugAddToColumnEngine = False\<rparr> 18446744073709551615
     = Some (18446744073709551612, 0) \<and>
   \<not> ((18446744073709551615 :: 64 word) < 0)"
  by (simp add: getHourAggregateBounds_def getDayAggregateBounds_def getHourAggregateWidth_def
      GetDayAggregateWidth_def Let_def)

text \<open>
  Claim C8 (partition alignment), as the code has it: when the partition width
  \<open>PartitionEpochWidth * hour width\<close> (resp. \<open>PartitionDayWidth * day width\<close>) is not zero and
  nothing overflows, \<open>GetHourPartitionRange e\<close> (resp. the two epochs that
  \<open>GetDayPartitionRange e\<close> converts to times) is a half-open range of exactly that width,
  starting at a multiple of that width and holding \<open>e\<close>: consecutive partitions tile the
  timeline. The partition holds the whole bucket of \<open>e\<close> when the genesis offset is a
  multiple of the bucket width; the partition range ignores the genesis offset that the
  bucket bounds are shifted by.
\<close>

theorem partition_range_alignment:
  "(PartitionEpochWidth cfg \<noteq> 0 \<and> getHourAggregateWidth cfg \<noteq> 0 \<and>
    unat (PartitionEpochWidth cfg) * unat (getHourAggregateWidth cfg) < 2 ^ 64 \<and>
    unat e + unat (PartitionEpochWidth cfg) * unat (getHourAggregateWidth cfg) < 2 ^ 64 \<longrightarrow>
      (\<exists>s t. GetHourPartitionRange cfg e = Some (s, t) \<and>
         aligned_partition (unat (PartitionEpochWidth cfg) * unat (getHourAggregateWidth cfg))
           (unat e) s t \<and>
         (unat (getHourAggregateWidth cfg) dvd unat (EpochOffsetGenesis cfg) \<and>
          unat e + unat (EpochOffsetGenesis cfg) + unat (getHourAggregateWidth cfg) < 2 ^ 64 \<longrightarrow>
            (\<exists>bs bt. getHourAggregateBounds cfg e = Some (bs, bt) \<and> s \<le> bs \<and> bt \<le> t)))) \<and>
   (GetDayAggregateWidth cfg \<noteq> 0 \<and>
    6 * unat (GetDayAggregateWidth cfg) < 2 ^ 64 \<and>
    unat e + 6 * unat (GetDayAggregateWidth cfg) < 2 ^ 64 \<longrightarrow>
      (\<exists>s t. GetDayPartitionRange toTime cfg e = Some (toTime s, toTime t) \<and>
         aligned_partition (6 * unat (GetDayAggregateWidth cfg)) (unat e) s t \<and>
         (unat (GetDayAggregateWidth cfg) dvd unat (EpochOffsetGenesis cfg) \<and>
          unat e + unat (EpochOffsetGenesis cfg) + unat (GetDayAggregateWidth cfg) < 2 ^ 64 \<longrightarrow>
            (\<exists>bs bt. getDayAggregateBounds cfg e = Some (bs, bt) \<and> s \<le> bs \<and> bt \<le> t))))"
  using GetHourPartitionRange_aligned [of cfg e] GetDayPartitionRange_aligned [of cfg e toTime]
  by blast

theorem partition_range_alignment_witness:
  "(\<exists>s t. GetHourPartitionRange
       \<lparr>EpochsPerDay = 225, EpochOffsetGenesis = 225, PartitionEpochWidth = 3,
        HourRetentionDurationEpochs = 270, RetentionEpochDuration = 10,
        debugAddToColumnEngine = False\<rparr> 26 = Some (s, t) \<and>
     aligned_partition 27 26 s t \<and>
     (\<exists>bs bt. getHourAggregateBounds
        \<lparr>EpochsPerDay = 225, EpochOffsetGenesis = 225, PartitionEpochWidth = 3,
         HourRetentionDurationEpochs = 270, RetentionEpochDuration = 10,
        debugAddToColumnEngine = False\<rparr> 26 = Some (bs, bt) \<and>
        s \<le> bs \<and> bt \<le> t)) \<and>
   (\<exists>s t. GetDayPartitionRange id
       \<lparr>EpochsPerDay = 225, EpochOffsetGenesis = 225, PartitionEpochWidth = 3,
        HourRetentionDurationEpochs = 270, RetentionEpochDuration = 10,
        debugAddToColumnEngine = False\<rparr> 26 = Some (s, t) \<and>
     aligned_partition 1350 26 s t \<and>
     (\<exists>bs bt. getDayAggregateBounds
        \<lparr>EpochsPerDay = 225, EpochOffsetGenesis = 225, PartitionEpochWidth = 3,
         HourRetentionDurationEpochs = 270, RetentionEpochDuration = 10,
        debugAddToColumnEngine = False\<rparr> 26 = Some (bs, bt) \<and>
        s \<le> bs \<and> bt \<le> t))"
  using partition_range_alignment
    [of "\<lparr>EpochsPerDay = 225, EpochOffsetGenesis = 225, PartitionEpochWidth = 3,
        HourRetentionDurationEpochs = 270, RetentionEpochDuration = 10,
        debugAddToColumnEngine = False\<rparr>" 26 id]
  by (simp add: getHourAggregateWidth_def GetDayAggregateWidth_def)

text \<open>
  The claim as worded fails when the genesis offset is not a multiple of the bucket
  width: with 225 epochs per day (hour width 9), an offset of 112 epochs and partitions of
  3 hour buckets, epoch 26 lies in the bucket \<open>[23, 32)\<close> and in the partition \<open>[0, 27)\<close>.
\<close>

theorem partition_range_counterexample:
  "GetHourPartitionRange
     \<lparr>EpochsPerDay = 225, EpochOffsetGenesis = 112, PartitionEpochWidth = 3,
      HourRetentionDurationEpochs = 270, RetentionEpochDuration = 10,
        debugAddToColumnEngine = False\<rparr> 26 = Some (0, 27) \<and>
   getHourAggregateBounds
     \<lparr>EpochsPerDay = 225, EpochOffsetGenesis = 112, PartitionEpochWidth = 3,
      HourRetentionDurationEpochs = 270, RetentionEpochDuration = 10,
        debugAddToColumnEngine = False\<rparr> 26 = Some (23, 32) \<and>
   \<not> ((32 :: 64 word) \<le> 27)"
  by (simp add: GetHourPartitionRange_def getHourAggregateBounds_def getHourAggregateWidth_def
      Let_def)

text \<open>
  Claim C9 (partition-identifier round trip): \<open>createHourlyPartition from to\<close> issues the
  creation of the table named \<open>hourlyPartitionName from to\<close>, that is
  \<open>validator_dashboard_data_hourly_<from>_<to>\<close>, and the pattern of
  \<open>clearOldHourAggregations\<close> parses that name back to exactly \<open>(from, to)\<close>, for all \<open>from\<close>
  and \<open>to\<close>.
\<close>

theorem hourly_partition_name_round_trip:
  "last (calls (snd (createHourlyPartition env epochFrom epochTo w)))
     = CallCreatePartition (hourlyPartitionName epochFrom epochTo)
         ''validator_dashboard_data_hourly'' (formatUint (unat epochFrom)) (formatUint (unat epochTo)) \<and>
   parseEpochRange hourlyPartitionPrefix (hourlyPartitionName epochFrom epochTo)
     = Some (epochFrom, epochTo)"
  by (simp add: parseEpochRange_hourlyPartitionName createHourlyPartition_def createPartition_def
      Let_def called_def)

text \<open>
  Claim C3 (retention exactness), as the code has it: the test is
  \<open>int64(epochTo) < removeBelowEpoch\<close>, strictly. After \<open>clearOldHourAggregations T\<close> has
  completed successfully, a partition \<open>validator_dashboard_data_hourly_<from>_<to>\<close> that
  existed before is still there exactly when \<open>to\<close>, read as \<open>int64\<close>, is not below \<open>T\<close>: no
  partition with \<open>to < T\<close> remains and no partition with \<open>to \<ge> T\<close> has been removed.
\<close>

theorem clearOldHourAggregations_retention:
  assumes "clearOldHourAggregations env removeBelowEpoch w = (None, w')"
    and "(''validator_dashboard_data_hourly'', hourlyPartitionName epochFrom epochTo)
           \<in> set (partitions w)"
  shows "(''validator_dashboard_data_hourly'', hourlyPartitionName epochFrom epochTo)
             \<in> set (partitions w') \<longleftrightarrow> \<not> sint epochTo < sint removeBelowEpoch"
  using assms by (rule clearOldHourAggregations_exact)

theorem clearOldHourAggregations_retention_witness:
  "fst (clearOldHourAggregations exampleEnv 30 twoPartitions) = None \<and>
   (''validator_dashboard_data_hourly'', hourlyPartitionName 0 27)
      \<notin> set (partitions (snd (clearOldHourAggregations exampleEnv 30 twoPartitions))) \<and>
   (''validator_dashboard_data_hourly'', hourlyPartitionName 27 54)
      \<in> set (partitions (snd (clearOldHourAggregations exampleEnv 30 twoPartitions)))"
proof -
  have ok: "clearOldHourAggregations exampleEnv 30 twoPartitions
      = (None, snd (clearOldHourAggregations exampleEnv 30 twoPartitions))"
    by (simp add: clearOldHourAggregations_def Let_def exampleEnv_def twoPartitions_def
        emptyWorld_def called_def GetPartitionNamesOfTable_def parseEpochRange_hourlyPartitionName
        deleteHourlyPartition_def)
  have in1: "(''validator_dashboard_data_hourly'', hourlyPartitionName 0 27)
      \<in> set (partitions twoPartitions)"
    and in2: "(''validator_dashboard_data_hourly'', hourlyPartitionName 27 54)
      \<in> set (partitions twoPartitions)"
    by (simp_all add: twoPartitions_def)
  have "fst (clearOldHourAggregations exampleEnv 30 twoPartitions) = None"
    using ok by (metis fst_conv)
  then show ?thesis
    using clearOldHourAggregations_retention [OF ok in1]
      clearOldHourAggregations_retention [OF ok in2]
    by simp
qed

text \<open>
  The claim as worded says that no partition with \<open>to \<le> T\<close> remains. A partition whose end
  is the threshold itself stays: with \<open>T = 27\<close> the partition \<open>[0, 27)\<close> is kept.
\<close>

theorem clearOldHourAggregations_counterexample:
  "fst (clearOldHourAggregations exampleEnv 27 twoPartitions) = None \<and>
   (27 :: 64 word) \<le> 27 \<and>
   (''validator_dashboard_data_hourly'', hourlyPartitionName 0 27)
      \<in> set (partitions (snd (clearOldHourAggregations exampleEnv 27 twoPartitions)))"
  by (simp add: clearOldHourAggregations_def Let_def exampleEnv_def twoPartitions_def
      emptyWorld_def called_def GetPartitionNamesOfTable_def parseEpochRange_hourlyPartitionName
      deleteHourlyPartition_def)

text \<open>
  Claim C10 (far-behind skip with unsigned wrap-around): whenever \<open>edb.GetLastExportedHour\<close>
  has answered and \<open>currentExportedEpoch + 1 - lastHourExported.EpochEnd\<close>, computed in
  \<open>uint64\<close>, exceeds the hour retention duration, \<open>aggregate1h\<close> returns nil and the only call
  it has made is \<open>GetLastExportedHour\<close>: no gap check, no partition, no merge write. When
  \<open>lastHourExported.EpochEnd\<close> is beyond \<open>currentExportedEpoch + 1\<close> the difference wraps to
  \<open>2^64 + currentExportedEpoch + 1 - EpochEnd\<close>. (The retention duration is a value of the
  configuration here; the source computes it in \<open>float64\<close>.)
\<close>

theorem aggregate1h_far_behind_skip:
  assumes "GetLastExportedHour env \<noteq> SqlError"
  shows "(HourRetentionDurationEpochs cfg
            < currentExportedEpoch + 1 - EpochEnd (boundsOf (GetLastExportedHour env)) \<longrightarrow>
          aggregate1h env cfg currentExportedEpoch w
            = Some (None, called CallGetLastExportedHour w)) \<and>
         (unat currentExportedEpoch + 1 < unat (EpochEnd (boundsOf (GetLastExportedHour env))) \<and>
          unat (HourRetentionDurationEpochs cfg)
            < 2 ^ 64 + unat currentExportedEpoch + 1
                - unat (EpochEnd (boundsOf (GetLastExportedHour env))) \<longrightarrow>
          aggregate1h env cfg currentExportedEpoch w
            = Some (None, called CallGetLastExportedHour w))"
proof (intro conjI impI)
  assume "HourRetentionDurationEpochs cfg
            < currentExportedEpoch + 1 - EpochEnd (boundsOf (GetLastExportedHour env))"
  with assms show "aggregate1h env cfg currentExportedEpoch w
      = Some (None, called CallGetLastExportedHour w)"
    by (rule aggregate1h_skip)
next
  assume a: "unat currentExportedEpoch + 1 < unat (EpochEnd (boundsOf (GetLastExportedHour env))) \<and>
      unat (HourRetentionDurationEpochs cfg)
        < 2 ^ 64 + unat currentExportedEpoch + 1
            - unat (EpochEnd (boundsOf (GetLastExportedHour env)))"
  then have "HourRetentionDurationEpochs cfg
      < currentExportedEpoch + 1 - EpochEnd (boundsOf (GetLastExportedHour env))"
    by (simp add: word_less_nat_alt wrapped_difference)
  with assms show "aggregate1h env cfg currentExportedEpoch w
      = Some (None, called CallGetLastExportedHour w)"
    by (rule aggregate1h_skip)
qed

theorem aggregate1h_far_behind_skip_witness:
  "unat (5 :: 64 word) + 1 < unat (EpochEnd (boundsOf (GetLastExportedHour farBehindEnv))) \<and>
   GetDashboardEpochGapsBetween farBehindEnv 5 (5 + 1 - RetentionEpochDuration exampleConfig)
     = Some [3] \<and>
   aggregate1h farBehindEnv exampleConfig 5 emptyWorld
     = Some (None, called CallGetLastExportedHour emptyWorld)"
  using aggregate1h_far_behind_skip [of farBehindEnv exampleConfig 5 emptyWorld]
  by (simp add: farBehindEnv_def exampleEnv_def exampleConfig_def boundsOf_def)

text \<open>
  Claim C4 (gap refusal), as the code has it. \<open>utcDayAggregate\<close> asks the gap detector about
  \<open>(currentExportedEpoch, latestExportedDay.EpochEnd)\<close>. \<open>aggregate1h\<close>, when it does not take
  the far-behind skip, asks it about
  \<open>(currentExportedEpoch, currentExportedEpoch + 1 - getRetentionEpochDuration())\<close>: the
  retention window of the epoch table, not the end of the last hourly bucket. In both,
  when the answer is a non-empty list the pass returns the error that names the gaps, and
  all it has done is to read the last bucket and to ask the gap detector: the partitions
  and the tables are as before.
\<close>

theorem gap_refusal:
  "(GetLastExportedHour env \<noteq> SqlError \<and>
    \<not> HourRetentionDurationEpochs cfg
        < currentExportedEpoch + 1 - EpochEnd (boundsOf (GetLastExportedHour env)) \<and>
    GetDashboardEpochGapsBetween env currentExportedEpoch
      (currentExportedEpoch + 1 - RetentionEpochDuration cfg) = Some gaps \<and> gaps \<noteq> [] \<longrightarrow>
      (\<exists>w'. aggregate1h env cfg currentExportedEpoch w = Some (Some (GapsInDashboardEpoch gaps), w') \<and>
         calls w' = calls w @ [CallGetLastExportedHour,
           CallGetDashboardEpochGapsBetween currentExportedEpoch
             (currentExportedEpoch + 1 - RetentionEpochDuration cfg)] \<and>
         partitions w' = partitions w \<and> committed w' = committed w)) \<and>
   (GetLastExportedDay env \<noteq> SqlError \<and>
    GetDashboardEpochGapsBetween env currentExportedEpoch
      (EpochEnd (boundsOf (GetLastExportedDay env))) = Some gaps \<and> gaps \<noteq> [] \<longrightarrow>
      (\<exists>w'. utcDayAggregate env cfg currentExportedEpoch w
                = Some (Some (GapsInDashboardEpochForUtcDayAgg gaps), w') \<and>
         calls w' = calls w @ [CallGetLastExportedDay,
           CallGetDashboardEpochGapsBetween currentExportedEpoch
             (EpochEnd (boundsOf (GetLastExportedDay env)))] \<and>
         partitions w' = partitions w \<and> committed w' = committed w))"
proof (intro conjI impI)
  assume "GetLastExportedHour env \<noteq> SqlError \<and>
    \<not> HourRetentionDurationEpochs cfg
        < currentExportedEpoch + 1 - EpochEnd (boundsOf (GetLastExportedHour env)) \<and>
    GetDashboardEpochGapsBetween env currentExportedEpoch
      (currentExportedEpoch + 1 - RetentionEpochDuration cfg) = Some gaps \<and> gaps \<noteq> []"
  then have "aggregate1h env cfg currentExportedEpoch w =
      Some (Some (GapsInDashboardEpoch gaps),
            called (CallGetDashboardEpochGapsBetween currentExportedEpoch
                      (currentExportedEpoch + 1 - RetentionEpochDuration cfg))
              (called CallGetLastExportedHour w))"
    by (intro aggregate1h_gaps) simp_all
  then show "\<exists>w'. aggregate1h env cfg currentExportedEpoch w
        = Some (Some (GapsInDashboardEpoch gaps), w') \<and>
      calls w' = calls w @ [CallGetLastExportedHour,
        CallGetDashboardEpochGapsBetween currentExportedEpoch
          (currentExportedEpoch + 1 - RetentionEpochDuration cfg)] \<and>
      partitions w' = partitions w \<and> committed w' = committed w"
    by (simp add: called_def)
next
  assume "GetLastExportedDay env \<noteq> SqlError \<and>
    GetDashboardEpochGapsBetween env currentExportedEpoch
      (EpochEnd (boundsOf (GetLastExportedDay env))) = Some gaps \<and> gaps \<noteq> []"
  then have "utcDayAggregate env cfg currentExportedEpoch w =
      Some (Some (GapsInDashboardEpochForUtcDayAgg gaps),
            called (CallGetDashboardEpochGapsBetween currentExportedEpoch
                      (EpochEnd (boundsOf (GetLastExportedDay env))))
              (called CallGetLastExportedDay w))"
    by (intro utcDayAggregate_gaps) simp_all
  then show "\<exists>w'. utcDayAggregate env cfg currentExportedEpoch w
        = Some (Some (GapsInDashboardEpochForUtcDayAgg gaps), w') \<and>
      calls w' = calls w @ [CallGetLastExportedDay,
        CallGetDashboardEpochGapsBetween currentExportedEpoch
          (EpochEnd (boundsOf (GetLastExportedDay env)))] \<and>
      partitions w' = partitions w \<and> committed w' = committed w"
    by (simp add: called_def)
qed

theorem gap_refusal_witness:
  "(\<exists>w'. aggregate1h (farBehindEnv\<lparr>GetLastExportedHour := Row \<lparr>EpochStart = 5, EpochEnd = 9\<rparr>\<rparr>)
             exampleConfig 12 emptyWorld = Some (Some (GapsInDashboardEpoch [3]), w') \<and>
      calls w' = [CallGetLastExportedHour, CallGetDashboardEpochGapsBetween 12 (12 + 1 - 292)] \<and>
      partitions w' = [] \<and> committed w' = emptyTables) \<and>
   (\<exists>w'. utcDayAggregate (farBehindEnv\<lparr>GetLastExportedHour := Row \<lparr>EpochStart = 5, EpochEnd = 9\<rparr>\<rparr>)
             exampleConfig 12 emptyWorld = Some (Some (GapsInDashboardEpochForUtcDayAgg [3]), w') \<and>
      calls w' = [CallGetLastExportedDay, CallGetDashboardEpochGapsBetween 12 9] \<and>
      partitions w' = [] \<and> committed w' = emptyTables)"
  using gap_refusal [of "farBehindEnv\<lparr>GetLastExportedHour := Row \<lparr>EpochStart = 5, EpochEnd = 9\<rparr>\<rparr>"
      exampleConfig 12 "[3]" emptyWorld]
  by (simp add: farBehindEnv_def exampleEnv_def exampleConfig_def boundsOf_def emptyWorld_def)

text \<open>
  The claim as worded has every pass ask about \<open>[currentExportedEpoch,
  lastExported.epoch_end)\<close>. Here the last hourly bucket is \<open>[5, 9)\<close>, the exported epoch is 12
  and only epoch 3 is missing: between 12 and 9 the gap detector has nothing to report.
  \<open>aggregate1h\<close> asks about \<open>(12, 12 + 1 - 292)\<close> instead (\<open>18446744073709551337\<close> is that
  difference in \<open>uint64\<close>, \<open>-279\<close> as \<open>int64\<close>), is told of epoch 3 and returns the gap error.
\<close>

theorem gap_refusal_counterexample:
  "GetLastExportedHour gapEnv = Row \<lparr>EpochStart = 5, EpochEnd = 9\<rparr> \<and>
   GetDashboardEpochGapsBetween gapEnv 12 9 = Some [] \<and>
   map_option fst (aggregate1h gapEnv exampleConfig 12 emptyWorld)
     = Some (Some (GapsInDashboardEpoch [3])) \<and>
   map_option (calls \<circ> snd) (aggregate1h gapEnv exampleConfig 12 emptyWorld)
     = Some [CallGetLastExportedHour,
             CallGetDashboardEpochGapsBetween 12 18446744073709551337]"
  by (intro conjI; code_simp)

text \<open>
  Claim C2 (atomicity of bucket advancement), as the code has it. The merge write is the
  only statement of the transaction: when \<open>aggregate1hSpecific\<close> or \<open>aggregateUtcDaySpecific\<close>
  returns an error, no row of any table has changed, and when it returns nil the tables
  are those the merge write produced. The partition is created by \<open>db.AlloyWriter.Exec\<close>,
  not by \<open>tx.Exec\<close> (for the day table even before \<open>Beginx\<close>): once that statement has
  succeeded the partition exists after the call, whether the transaction commits or not.
\<close>

theorem bucket_advance_transaction:
  "(aggregate1hSpecific env cfg epochStart epochEnd w = (Some err, w') \<longrightarrow>
      committed w' = committed w) \<and>
   (aggregate1hSpecific env cfg epochStart epochEnd w = (None, w') \<longrightarrow>
      (\<exists>ps pe bs be.
         GetHourPartitionRange cfg epochStart = Some (ps, pe) \<and>
         getHourAggregateBounds cfg epochStart = Some (bs, be) \<and>
         hourlyPartitionName ps pe \<in> snd ` set (partitions w') \<and>
         AddToRollingCustom
           \<lparr>StartEpoch = epochStart, EndEpoch = epochEnd - 1, StartBoundEpoch = bs,
            TableFrom = ''validator_dashboard_data_epoch'',
            TableTo = ''validator_dashboard_data_hourly'',
            TableDayValue = [],
            TableConflict = ''(epoch_start, validator_index)''\<rparr> (committed w)
           = Some (committed w'))) \<and>
   (\<not> fails env CallBeginx \<and> GetHourPartitionRange cfg epochStart = Some (hs, he) \<and>
    \<not> fails env (CallCreatePartition (hourlyPartitionName hs he)
          ''validator_dashboard_data_hourly'' (formatUint (unat hs)) (formatUint (unat he))) \<longrightarrow>
      hourlyPartitionName hs he
        \<in> snd ` set (partitions (snd (aggregate1hSpecific env cfg epochStart epochEnd w)))) \<and>
   (aggregateUtcDaySpecific env cfg epochStart epochEnd w = (Some err, w') \<longrightarrow>
      committed w' = committed w) \<and>
   (aggregateUtcDaySpecific env cfg epochStart epochEnd w = (None, w') \<longrightarrow>
      (\<exists>ps pe bs be.
         GetDayPartitionRange (EpochToTime env) cfg epochEnd = Some (ps, pe) \<and>
         getDayAggregateBounds cfg epochStart = Some (bs, be) \<and>
         ''validator_dashboard_data_daily_'' @ dayToYYMMDDLabel env ps @ ''_'' @
            dayToYYMMDDLabel env pe \<in> snd ` set (partitions w') \<and>
         AddToRollingCustom
           \<lparr>StartEpoch = epochStart, EndEpoch = epochEnd - 1, StartBoundEpoch = bs,
            TableFrom = ''validator_dashboard_data_epoch'',
            TableTo = ''validator_dashboard_data_daily'',
            TableDayValue = [CHR 0x27] @ Format env (EpochToTime env bs) ''2006-01-02''
                              @ [CHR 0x27] @ '' as day,'',
            TableConflict = ''(day, validator_index)''\<rparr> (committed w)
           = Some (committed w'))) \<and>
   (GetDayPartitionRange (EpochToTime env) cfg epochEnd = Some (ds, de) \<and>
    \<not> fails env (CallCreatePartition
          (''validator_dashboard_data_daily_'' @ dayToYYMMDDLabel env ds @ ''_'' @
             dayToYYMMDDLabel env de)
          ''validator_dashboard_data_daily'' (dayToDDMMYY env ds) (dayToDDMMYY env de)) \<longrightarrow>
      ''validator_dashboard_data_daily_'' @ dayToYYMMDDLabel env ds @ ''_'' @
          dayToYYMMDDLabel env de
        \<in> snd ` set (partitions (snd (aggregateUtcDaySpecific env cfg epochStart epochEnd w))))"
  using aggregate1hSpecific_failure [of env cfg epochStart epochEnd w err w']
    aggregate1hSpecific_success [of env cfg epochStart epochEnd w w']
    aggregate1hSpecific_partition_outside_tx [of env cfg epochStart hs he epochEnd w]
    aggregateUtcDaySpecific_failure [of env cfg epochStart epochEnd w err w']
    aggregateUtcDaySpecific_success [of env cfg epochStart epochEnd w w']
    aggregateUtcDaySpecific_partition_outside_tx [of env cfg epochEnd ds de epochStart w]
  by blast

theorem bucket_advance_transaction_witness:
  "committed (snd (aggregate1hSpecific commitFails exampleConfig 9 13 emptyWorld))
     = committed emptyWorld \<and>
   hourlyPartitionName 0 27
     \<in> snd ` set (partitions (snd (aggregate1hSpecific commitFails exampleConfig 9 13 emptyWorld))) \<and>
   committed (snd (aggregateUtcDaySpecific commitFails exampleConfig 9 13 emptyWorld))
     = committed emptyWorld"
proof -
  have "fst (aggregate1hSpecific commitFails exampleConfig 9 13 emptyWorld)
      = Some FailedToCommitTransaction"
    by code_simp
  then have h: "aggregate1hSpecific commitFails exampleConfig 9 13 emptyWorld
      = (Some FailedToCommitTransaction,
         snd (aggregate1hSpecific commitFails exampleConfig 9 13 emptyWorld))"
    by (metis prod.collapse)
  have "fst (aggregateUtcDaySpecific commitFails exampleConfig 9 13 emptyWorld) = Some CommitError"
    by code_simp
  then have d: "aggregateUtcDaySpecific commitFails exampleConfig 9 13 emptyWorld
      = (Some CommitError, snd (aggregateUtcDaySpecific commitFails exampleConfig 9 13 emptyWorld))"
    by (metis prod.collapse)
  have p: "\<not> fails commitFails CallBeginx"
    "GetHourPartitionRange exampleConfig 9 = Some (0, 27)"
    "\<not> fails commitFails (CallCreatePartition (hourlyPartitionName 0 27)
          ''validator_dashboard_data_hourly'' (formatUint (unat (0 :: 64 word)))
          (formatUint (unat (27 :: 64 word))))"
    by (simp_all add: commitFails_def exampleEnv_def exampleConfig_def GetHourPartitionRange_def
        getHourAggregateWidth_def Let_def)
  show ?thesis
    using bucket_advance_transaction [where env = commitFails and cfg = exampleConfig
        and epochStart = 9 and epochEnd = 13 and w = emptyWorld
        and err = FailedToCommitTransaction
        and w' = "snd (aggregate1hSpecific commitFails exampleConfig 9 13 emptyWorld)"
        and hs = 0 and he = 27]
      bucket_advance_transaction [where env = commitFails and cfg = exampleConfig
        and epochStart = 9 and epochEnd = 13 and w = emptyWorld
        and err = CommitError
        and w' = "snd (aggregateUtcDaySpecific commitFails exampleConfig 9 13 emptyWorld)"]
      h d p
    by blast
qed

text \<open>
  The claim as worded has the partition creation and the merge write committed in one
  transaction and rolled back together. Here \<open>Commit\<close> fails: the transaction is rolled
  back, the call returns an error, and the partition \<open>validator_dashboard_data_hourly_0_27\<close>
  that the call created is there all the same.
\<close>

theorem bucket_advance_transaction_counterexample:
  "fst (aggregate1hSpecific commitFails exampleConfig 9 13 emptyWorld)
     = Some FailedToCommitTransaction \<and>
   partitions emptyWorld = [] \<and>
   partitions (snd (aggregate1hSpecific commitFails exampleConfig 9 13 emptyWorld))
     = [(''validator_dashboard_data_hourly'', ''validator_dashboard_data_hourly_0_27'')]"
  by (intro conjI; code_simp)

text \<open>
  Claim C6 (merge semantics for the slashed flag), on the merge write as the specification
  describes it (\<open>AddToRollingCustom\<close> is not among the source files): whenever the merge
  write has a new aggregate \<open>a\<close> for a validator and the destination table already has a row
  \<open>dst ! i\<close> for that validator and the bucket of the merge, that row is afterwards the same
  row of the same bucket, and its \<open>slashed\<close> is the logical OR of the value it had and of the
  aggregate's; the aggregate's \<open>slashed\<close> says whether a source row of the validator in the
  range is slashed. (In the source files the only \<open>ON CONFLICT\<close> clause is in the statement
  after the \<open>return\<close> of \<open>aggregate1hSpecific\<close>, which is never executed; it reads
  \<open>slashed = COALESCE(existing, new)\<close>.)
\<close>

theorem merge_slashed_logical_or:
  assumes "i < length dst"
    and "a \<in> set (merge_aggregate p src)"
    and "same_bucket p a (dst ! i)"
  shows "i < length (merge_write p src dst) \<and>
         same_bucket p a (merge_write p src dst ! i) \<and>
         slashed (merge_write p src dst ! i) = (slashed (dst ! i) \<or> slashed a) \<and>
         (slashed a \<longleftrightarrow>
            (\<exists>r\<in>set src. in_range p r \<and> validator_index r = validator_index a \<and> slashed r))"
  using merge_write_existing_row [OF assms] slashed_merge_aggregate [OF assms(2)] assms(3)
  by (simp add: merge_existing_def same_bucket_def)

theorem merge_slashed_logical_or_witness:
  "\<not> slashed (bucketRow 1 5 9 4 False 32) \<and>
   slashed (merge_write exampleRolling [epochRow 1 9 1 True 32] [bucketRow 1 5 9 4 False 32] ! 0)"
proof -
  let ?src = "[epochRow 1 9 1 True 32]"
  let ?dst = "[bucketRow 1 5 9 4 False 32]"
  let ?a = "hd (merge_aggregate exampleRolling ?src)"
  have ne: "merge_aggregate exampleRolling ?src \<noteq> []"
    by (simp add: merge_aggregate_def group_by_validator_def exampleRolling_def epochRow_def
        in_range_def)
  then have a: "?a \<in> set (merge_aggregate exampleRolling ?src)" by simp
  have va: "validator_index ?a = 1"
    by (simp add: merge_aggregate_def group_by_validator_def exampleRolling_def epochRow_def
        in_range_def aggregate_group_def)
  have same: "same_bucket exampleRolling ?a (?dst ! 0)"
    by (simp add: same_bucket_def va) (simp add: exampleRolling_def bucketRow_def)
  have src: "\<exists>r\<in>set ?src. in_range exampleRolling r \<and> validator_index r = validator_index ?a \<and>
      slashed r"
    by (simp add: va) (simp add: exampleRolling_def epochRow_def in_range_def)
  show ?thesis
    using merge_slashed_logical_or [of 0 ?dst ?a exampleRolling ?src, OF _ a same] src
    by (simp add: bucketRow_def)
qed

text \<open>
  Claim C7 (rolling-window bootstrap). Let \<open>(windowTailStart, windowHeadStart)\<close> be the bounds
  that \<open>getBootstrapBounds\<close> gives for the start of the last hourly bucket. If the hourly
  table has no row with \<open>epoch_start = windowTailStart\<close>, \<open>bootstrap\<close> returns an error and
  has not touched the transaction. If \<open>bootstrap\<close> returns nil, the tail row exists and the
  rolling table of the transaction is replaced by the rows rebuilt from the hourly table:
  every row has \<open>epoch_start = windowTailStart\<close>, its counters are the sums over exactly the
  hourly rows of its validator with \<open>windowTailStart \<le> epoch_start \<le> windowHeadStart\<close>, its
  \<open>balance_start\<close> is that of the validator's tail row and its \<open>balance_end\<close> that of the
  validator's head row (null when the validator has no such row); every validator with a
  row in the window has a row; and there is one row per validator when \<open>(epoch_start,
  validator_index)\<close> is a key of the hourly table.
\<close>

theorem bootstrap_rebuild:
  assumes "GetLastExportedHour env \<noteq> SqlError"
    and "getBootstrapBounds cfg (EpochStart (boundsOf (GetLastExportedHour env)))
           = Some (windowTailStart, windowHeadStart)"
  shows "(\<not> list_ex (\<lambda>r. epoch_start r = windowTailStart)
              (validator_dashboard_data_hourly (committed w)) \<longrightarrow>
            fst (bootstrap env cfg tx w) = Some (FailedToCheckTail windowTailStart) \<and>
            fst (snd (bootstrap env cfg tx w)) = tx) \<and>
         (bootstrap env cfg tx w = (None, tx', w') \<longrightarrow>
            list_ex (\<lambda>r. epoch_start r = windowTailStart)
              (validator_dashboard_data_hourly (committed w)) \<and>
            tx' = tx\<lparr>validator_dashboard_data_rolling_daily :=
                      bootstrap_rows windowTailStart windowHeadStart
                        (validator_dashboard_data_hourly tx)\<rparr> \<and>
            (\<forall>r'\<in>set (validator_dashboard_data_rolling_daily tx').
               epoch_start r' = windowTailStart \<and>
               (\<forall>c. sums r' c = sum_list (map (\<lambda>r. sums r c)
                  (filter (\<lambda>r. windowTailStart \<le> epoch_start r \<and> epoch_start r \<le> windowHeadStart \<and>
                               validator_index r = validator_index r')
                     (validator_dashboard_data_hourly tx)))) \<and>
               ((balance_start r' = None \<and>
                   \<not> (\<exists>b\<in>set (validator_dashboard_data_hourly tx).
                         epoch_start b = windowTailStart \<and> validator_index b = validator_index r')) \<or>
                (\<exists>b\<in>set (validator_dashboard_data_hourly tx).
                   epoch_start b = windowTailStart \<and> validator_index b = validator_index r' \<and>
                   balance_start r' = balance_start b)) \<and>
               ((balance_end r' = None \<and>
                   \<not> (\<exists>b\<in>set (validator_dashboard_data_hourly tx).
                         epoch_start b = windowHeadStart \<and> validator_index b = validator_index r')) \<or>
                (\<exists>b\<in>set (validator_dashboard_data_hourly tx).
                   epoch_start b = windowHeadStart \<and> validator_index b = validator_index r' \<and>
                   balance_end r' = balance_end b))) \<and>
            (\<forall>r\<in>set (validator_dashboard_data_hourly tx).
               windowTailStart \<le> epoch_start r \<and> epoch_start r \<le> windowHeadStart \<longrightarrow>
               (\<exists>r'\<in>set (validator_dashboard_data_rolling_daily tx').
                  validator_index r' = validator_index r)) \<and>
            (distinct (map (\<lambda>r. (epoch_start r, validator_index r))
                         (validator_dashboard_data_hourly tx)) \<longrightarrow>
             distinct (map validator_index (validator_dashboard_data_rolling_daily tx'))))"
proof (intro conjI impI)
  assume "\<not> list_ex (\<lambda>r. epoch_start r = windowTailStart)
              (validator_dashboard_data_hourly (committed w))"
  then have "bootstrap env cfg tx w =
      (Some (FailedToCheckTail windowTailStart), tx,
       called (CallGetTailExists windowTailStart) (called CallGetLastExportedHour w))"
    by (rule bootstrap_tail_missing [OF assms])
  then show "fst (bootstrap env cfg tx w) = Some (FailedToCheckTail windowTailStart)"
    and "fst (snd (bootstrap env cfg tx w)) = tx"
    by simp_all
next
  assume ok: "bootstrap env cfg tx w = (None, tx', w')"
  note s = bootstrap_success [OF assms ok]
  show "list_ex (\<lambda>r. epoch_start r = windowTailStart)
      (validator_dashboard_data_hourly (committed w))"
    by (fact s(1))
  show "tx' = tx\<lparr>validator_dashboard_data_rolling_daily :=
      bootstrap_rows windowTailStart windowHeadStart (validator_dashboard_data_hourly tx)\<rparr>"
    by (fact s(2))
  have r: "validator_dashboard_data_rolling_daily tx'
      = bootstrap_rows windowTailStart windowHeadStart (validator_dashboard_data_hourly tx)"
    by (simp add: s(2))
  show "\<forall>r'\<in>set (validator_dashboard_data_rolling_daily tx').
      epoch_start r' = windowTailStart \<and>
      (\<forall>c. sums r' c = sum_list (map (\<lambda>r. sums r c)
         (filter (\<lambda>r. windowTailStart \<le> epoch_start r \<and> epoch_start r \<le> windowHeadStart \<and>
                      validator_index r = validator_index r')
            (validator_dashboard_data_hourly tx)))) \<and>
      ((balance_start r' = None \<and>
          \<not> (\<exists>b\<in>set (validator_dashboard_data_hourly tx).
                epoch_start b = windowTailStart \<and> validator_index b = validator_index r')) \<or>
       (\<exists>b\<in>set (validator_dashboard_data_hourly tx).
          epoch_start b = windowTailStart \<and> validator_index b = validator_index r' \<and>
          balance_start r' = balance_start b)) \<and>
      ((balance_end r' = None \<and>
          \<not> (\<exists>b\<in>set (validator_dashboard_data_hourly tx).
                epoch_start b = windowHeadStart \<and> validator_index b = validator_index r')) \<or>
       (\<exists>b\<in>set (validator_dashboard_data_hourly tx).
          epoch_start b = windowHeadStart \<and> validator_index b = validator_index r' \<and>
          balance_end r' = balance_end b))"
    unfolding r
    using bootstrap_rows_member [of _ windowTailStart windowHeadStart "validator_dashboard_data_hourly tx"]
    by blast
  show "\<forall>r\<in>set (validator_dashboard_data_hourly tx).
      windowTailStart \<le> epoch_start r \<and> epoch_start r \<le> windowHeadStart \<longrightarrow>
      (\<exists>r'\<in>set (validator_dashboard_data_rolling_daily tx').
         validator_index r' = validator_index r)"
    unfolding r using bootstrap_rows_cover by blast
  show "distinct (map validator_index (validator_dashboard_data_rolling_daily tx'))"
    if "distinct (map (\<lambda>r. (epoch_start r, validator_index r)) (validator_dashboard_data_hourly tx))"
    unfolding r bootstrap_rows_one_per_validator [OF that] by simp
qed

theorem bootstrap_rebuild_witness:
  "fst (bootstrap bootstrapEnv exampleConfig emptyTables emptyWorld) = Some (FailedToCheckTail 5) \<and>
   fst (bootstrap bootstrapEnv exampleConfig (committed hourlyWorld) hourlyWorld) = None \<and>
   map validator_index (validator_dashboard_data_rolling_daily
     (fst (snd (bootstrap bootstrapEnv exampleConfig (committed hourlyWorld) hourlyWorld)))) = [1, 2] \<and>
   map (\<lambda>r. sums r attestations_reward) (validator_dashboard_data_rolling_daily
     (fst (snd (bootstrap bootstrapEnv exampleConfig (committed hourlyWorld) hourlyWorld)))) = [22, 7] \<and>
   map balance_start (validator_dashboard_data_rolling_daily
     (fst (snd (bootstrap bootstrapEnv exampleConfig (committed hourlyWorld) hourlyWorld))))
     = [Some 32, None] \<and>
   map balance_end (validator_dashboard_data_rolling_daily
     (fst (snd (bootstrap bootstrapEnv exampleConfig (committed hourlyWorld) hourlyWorld))))
     = [Some 34, Some 64]"
proof -
  let ?b = "bootstrap bootstrapEnv exampleConfig (committed hourlyWorld) hourlyWorld"
  have ne: "GetLastExportedHour bootstrapEnv \<noteq> SqlError"
    by (simp add: bootstrapEnv_def exampleEnv_def)
  have bounds: "getBootstrapBounds exampleConfig
      (EpochStart (boundsOf (GetLastExportedHour bootstrapEnv))) = Some (5, 230)"
    by code_simp
  have missing: "\<not> list_ex (\<lambda>r. epoch_start r = 5)
      (validator_dashboard_data_hourly (committed emptyWorld))"
    by (simp add: emptyWorld_def emptyTables_def)
  have "fst ?b = None" by code_simp
  then have ok: "?b = (None, fst (snd ?b), snd (snd ?b))" by (metis prod.collapse)
  note T = bootstrap_rebuild [OF ne bounds]
  have f: "fst (bootstrap bootstrapEnv exampleConfig emptyTables emptyWorld)
      = Some (FailedToCheckTail 5)"
    using T [of emptyWorld emptyTables] missing by blast
  have r: "validator_dashboard_data_rolling_daily (fst (snd ?b))
      = bootstrap_rows 5 230 (validator_dashboard_data_hourly (committed hourlyWorld))"
    using T [of hourlyWorld "committed hourlyWorld" "fst (snd ?b)" "snd (snd ?b)"] ok
    by (metis tables.select_convs(4) tables.surjective tables.update_convs(4))
  have v: "map validator_index
        (bootstrap_rows 5 230 (validator_dashboard_data_hourly (committed hourlyWorld))) = [1, 2]"
    "map (\<lambda>r. sums r attestations_reward)
        (bootstrap_rows 5 230 (validator_dashboard_data_hourly (committed hourlyWorld))) = [22, 7]"
    "map balance_start
        (bootstrap_rows 5 230 (validator_dashboard_data_hourly (committed hourlyWorld)))
       = [Some 32, None]"
    "map balance_end
        (bootstrap_rows 5 230 (validator_dashboard_data_hourly (committed hourlyWorld)))
       = [Some 34, Some 64]"
    by code_simp+
  show ?thesis
    unfolding r using f v \<open>fst ?b = None\<close> by simp
qed

text \<open>
  Claim C1 (idempotent resume). Take the state that a pass up to \<open>currentExportedEpoch\<close>
  leaves: the last bucket of the granularity starts at the bucket start of
  \<open>currentExportedEpoch\<close> and ends at \<open>currentExportedEpoch + 1\<close>, and the epoch table has no
  row beyond \<open>currentExportedEpoch\<close>. Then \<open>aggregate1h\<close> (resp. \<open>utcDayAggregate\<close>), called
  again with the same epoch, returns, and no row of any table has changed; no merge write
  it has issued starts before \<open>lastExported.EpochEnd\<close>, and the first one, if any, starts
  exactly there. (The bucket width is not zero and \<open>epoch + offset + 2 * width\<close> is below
  \<open>2^64\<close>.)
\<close>

theorem idempotent_resume:
  assumes "\<forall>r\<in>set (validator_dashboard_data_epoch (committed w)). epoch r \<le> currentExportedEpoch"
  shows "(getHourAggregateWidth cfg \<noteq> 0 \<and>
          unat currentExportedEpoch + unat (EpochOffsetGenesis cfg)
            + 2 * unat (getHourAggregateWidth cfg) < 2 ^ 64 \<and>
          getHourAggregateBounds cfg currentExportedEpoch = Some (hs, he) \<and>
          GetLastExportedHour env = Row \<lparr>EpochStart = hs, EpochEnd = currentExportedEpoch + 1\<rparr> \<longrightarrow>
            (\<exists>r w'. aggregate1h env cfg currentExportedEpoch w = Some (r, w') \<and>
               resumed_at (currentExportedEpoch + 1) w w')) \<and>
         (GetDayAggregateWidth cfg \<noteq> 0 \<and>
          unat currentExportedEpoch + unat (EpochOffsetGenesis cfg)
            + 2 * unat (GetDayAggregateWidth cfg) < 2 ^ 64 \<and>
          getDayAggregateBounds cfg currentExportedEpoch = Some (ds, de) \<and>
          GetLastExportedDay env = Row \<lparr>EpochStart = ds, EpochEnd = currentExportedEpoch + 1\<rparr> \<longrightarrow>
            (\<exists>r w'. utcDayAggregate env cfg currentExportedEpoch w = Some (r, w') \<and>
               resumed_at (currentExportedEpoch + 1) w w'))"
  using aggregate1h_repeat [of cfg currentExportedEpoch hs he env w]
    utcDayAggregate_repeat [of cfg currentExportedEpoch ds de env w] assms
  by blast

theorem idempotent_resume_witness:
  "(\<exists>r w'. aggregate1h repeatEnv exampleConfig 12 repeatWorld = Some (r, w') \<and>
      resumed_at 13 repeatWorld w') \<and>
   (\<exists>r w'. utcDayAggregate repeatEnv exampleConfig 12 repeatWorld = Some (r, w') \<and>
      resumed_at 13 repeatWorld w') \<and>
   map_option fst (aggregate1h repeatEnv exampleConfig 12 repeatWorld) = Some None \<and>
   map_option (merge_starts \<circ> calls \<circ> snd) (aggregate1h repeatEnv exampleConfig 12 repeatWorld)
     = Some [13, 14] \<and>
   map_option fst (utcDayAggregate repeatEnv exampleConfig 12 repeatWorld) = Some None \<and>
   map_option (merge_starts \<circ> calls \<circ> snd) (utcDayAggregate repeatEnv exampleConfig 12 repeatWorld)
     = Some [13]"
proof -
  have src: "\<forall>r\<in>set (validator_dashboard_data_epoch (committed repeatWorld)). epoch r \<le> 12"
    by (simp add: repeatWorld_def emptyWorld_def emptyTables_def epochRow_def)
  have hour: "getHourAggregateWidth exampleConfig \<noteq> 0"
    "unat (12 :: 64 word) + unat (EpochOffsetGenesis exampleConfig)
       + 2 * unat (getHourAggregateWidth exampleConfig) < 2 ^ 64"
    "getHourAggregateBounds exampleConfig 12 = Some (5, 14)"
    "GetLastExportedHour repeatEnv = Row \<lparr>EpochStart = 5, EpochEnd = 12 + 1\<rparr>"
    by (simp_all add: exampleConfig_def getHourAggregateWidth_def getHourAggregateBounds_def
        Let_def repeatEnv_def exampleEnv_def)
  have day: "GetDayAggregateWidth exampleConfig \<noteq> 0"
    "unat (12 :: 64 word) + unat (EpochOffsetGenesis exampleConfig)
       + 2 * unat (GetDayAggregateWidth exampleConfig) < 2 ^ 64"
    "getDayAggregateBounds exampleConfig 12 = Some (0, 113)"
    "GetLastExportedDay repeatEnv = Row \<lparr>EpochStart = 0, EpochEnd = 12 + 1\<rparr>"
    by (simp_all add: exampleConfig_def GetDayAggregateWidth_def getDayAggregateBounds_def
        Let_def repeatEnv_def exampleEnv_def)
  have run: "map_option fst (aggregate1h repeatEnv exampleConfig 12 repeatWorld) = Some None"
    "map_option (merge_starts \<circ> calls \<circ> snd) (aggregate1h repeatEnv exampleConfig 12 repeatWorld)
       = Some [13, 14]"
    "map_option fst (utcDayAggregate repeatEnv exampleConfig 12 repeatWorld) = Some None"
    "map_option (merge_starts \<circ> calls \<circ> snd) (utcDayAggregate repeatEnv exampleConfig 12 repeatWorld)
       = Some [13]"
    by code_simp+
  have "(\<exists>r w'. aggregate1h repeatEnv exampleConfig 12 repeatWorld = Some (r, w') \<and>
           resumed_at (12 + 1) repeatWorld w') \<and>
        (\<exists>r w'. utcDayAggregate repeatEnv exampleConfig 12 repeatWorld = Some (r, w') \<and>
           resumed_at (12 + 1) repeatWorld w')"
    using idempotent_resume [OF src, of exampleConfig 5 14 repeatEnv 0 113] hour day
    by blast
  then show ?thesis using run by simp
qed

end
